theory Spec2Isabelle
  imports Main
begin

text \<open>
  The namespace controller of \<^verbatim>\<open>internal/controller/namespace_controller.go\<close> and the
  types of \<^verbatim>\<open>api/v1\<close> it works on, as functions on an explicit cluster state. Every
  function of the controller takes the state of the store and returns the new one, next
  to the objects it changed in memory and the error it returned (\<open>None\<close> for
  \<^verbatim>\<open>nil\<close>).
\<close>

section \<open>Data model\<close>

text \<open>
  The types of \<^verbatim>\<open>api/v1\<close>: a ledger entry, and the class with its list of raw
  manifests (\<^verbatim>\<open>Spec.Resources\<close>, the bytes of each \<^verbatim>\<open>runtime.RawExtension\<close>) and its
  ledger (\<^verbatim>\<open>Status.Resources\<close>).
\<close>

record ResourceStatus =
  Kind :: string
  Name :: string
  APIVersion :: string

record NamespaceClass =
  nc_Name :: string
  nc_Spec_Resources :: "string list"
  nc_Status_Resources :: "ResourceStatus list"

text \<open>
  The part of \<^verbatim>\<open>corev1.Namespace\<close> the controller reads and writes. A Go map that is
  \<^verbatim>\<open>nil\<close> reads like an empty one, and the controller replaces a \<^verbatim>\<open>nil\<close> annotation
  map by an empty one before it writes, so both are the empty map here.
\<close>

record Namespace =
  ns_Name :: string
  ns_Labels :: "string \<rightharpoonup> string"
  ns_Annotations :: "string \<rightharpoonup> string"

text \<open>
  An \<^verbatim>\<open>unstructured.Unstructured\<close> object: the four fields the controller reads through
  its accessors, and the rest of the document as one opaque value.
\<close>

record Unstructured =
  GetAPIVersion :: string
  GetKind :: string
  GetName :: string
  GetNamespace :: string
  content :: string

record Request =
  NamespacedName :: string

datatype Object =
    NamespaceClassObject NamespaceClass
  | NamespaceObject Namespace
  | UnstructuredObject Unstructured

definition class_label :: string where
  "class_label = ''namespaceclass.akuity.io/name''"

definition last_name :: string where
  "last_name = ''namespaceclass.akuity.io/last-name''"

definition zero_Namespace :: Namespace where
  "zero_Namespace = \<lparr>ns_Name = [], ns_Labels = Map.empty, ns_Annotations = Map.empty\<rparr>"

definition zero_NamespaceClass :: NamespaceClass where
  "zero_NamespaceClass = \<lparr>nc_Name = [], nc_Spec_Resources = [], nc_Status_Resources = []\<rparr>"

text \<open>
  The identity that \<^verbatim>\<open>GroupVersionKind()\<close> compares: the object's API version (group
  and version) and its kind.
\<close>

definition GroupVersionKind :: "Unstructured \<Rightarrow> string \<times> string" where
  "GroupVersionKind u = (GetAPIVersion u, GetKind u)"

section \<open>The object store\<close>

text \<open>
  The cluster API behind \<^verbatim>\<open>client.Client\<close>. A managed resource is addressed by API
  version, kind, namespace and name; the store keeps the rest of its document under that
  address. Every request the controller sends is appended to \<open>calls\<close>, whether it succeeds
  or not.
\<close>

type_synonym ObjectKey = "string \<times> string \<times> string \<times> string"

datatype error = NotFound | AlreadyExists | DecodeError | ApiFailure | SliceBoundsPanic

datatype call =
    GetNamespaceCall string
  | GetNamespaceClassCall string
  | GetCall ObjectKey
  | CreateCall Unstructured
  | UpdateCall Unstructured
  | DeleteCall ObjectKey
  | UpdateNamespaceCall Namespace
  | StatusUpdateCall NamespaceClass
  | ListNamespacesCall

record cluster =
  namespaces :: "Namespace list"
  classes :: "NamespaceClass list"
  objects :: "ObjectKey \<rightharpoonup> string"
  calls :: "call list"

text \<open>
  The reconciler's two collaborators: the decoder of a raw manifest
  (\<^verbatim>\<open>obj.UnmarshalJSON(resource.Raw)\<close>, \<open>None\<close> when it returns an error) and the failures
  of the client other than "not found" (transport and API errors), which may depend on the
  requests sent so far and on the request.
\<close>

record NamespaceReconciler =
  UnmarshalJSON :: "string \<Rightarrow> Unstructured option"
  Fails :: "call list \<Rightarrow> call \<Rightarrow> bool"

definition ObjectKeyFromObject :: "Unstructured \<Rightarrow> ObjectKey" where
  "ObjectKeyFromObject u = (GetAPIVersion u, GetKind u, GetNamespace u, GetName u)"

definition issue :: "call \<Rightarrow> cluster \<Rightarrow> cluster" where
  "issue c s = s\<lparr>calls := calls s @ [c]\<rparr>"

fun replace_Namespace :: "Namespace \<Rightarrow> Namespace list \<Rightarrow> Namespace list" where
  "replace_Namespace n [] = []"
| "replace_Namespace n (m # ms) =
     (if ns_Name m = ns_Name n then n # ms else m # replace_Namespace n ms)"

fun replace_Status :: "NamespaceClass \<Rightarrow> NamespaceClass list \<Rightarrow> NamespaceClass list" where
  "replace_Status c [] = []"
| "replace_Status c (d # ds) =
     (if nc_Name d = nc_Name c
      then d\<lparr>nc_Status_Resources := nc_Status_Resources c\<rparr> # ds
      else d # replace_Status c ds)"

text \<open>
  \<^verbatim>\<open>r.Get(ctx, key, obj)\<close> has one way to hand back what it found: the object it is
  given, which it overwrites with the stored one. The three functions below return that
  object; the caller's variable holds it afterwards. A namespace and a class are looked up
  by name, a managed resource by the kind of the object given and the namespace and name
  of the key.

  The writing requests fail with "not found" (update, delete, status update) or "already
  exists" (create) as the store decides, and with \<open>ApiFailure\<close> when \<open>Fails\<close> says so; a
  write conflict is one of those failures. A request that fails leaves the store as it
  was. A request that succeeds also writes the server's answer into the object it was
  given; the answer is the object just stored, so the fields kept here do not change.
  A status update replaces the ledger of the stored class and nothing else of it.
\<close>

definition Get_Namespace ::
  "NamespaceReconciler \<Rightarrow> string \<Rightarrow> cluster \<Rightarrow> (error + Namespace) \<times> cluster" where
  "Get_Namespace r key s =
     (if Fails r (calls s) (GetNamespaceCall key) then Inl ApiFailure
      else case find (\<lambda>n. ns_Name n = key) (namespaces s) of
             None \<Rightarrow> Inl NotFound
           | Some n \<Rightarrow> Inr n,
      issue (GetNamespaceCall key) s)"

definition Get_NamespaceClass ::
  "NamespaceReconciler \<Rightarrow> string \<Rightarrow> cluster \<Rightarrow> (error + NamespaceClass) \<times> cluster" where
  "Get_NamespaceClass r key s =
     (if Fails r (calls s) (GetNamespaceClassCall key) then Inl ApiFailure
      else case find (\<lambda>c. nc_Name c = key) (classes s) of
             None \<Rightarrow> Inl NotFound
           | Some c \<Rightarrow> Inr c,
      issue (GetNamespaceClassCall key) s)"

definition Get ::
  "NamespaceReconciler \<Rightarrow> Unstructured \<Rightarrow> cluster \<Rightarrow> (error + Unstructured) \<times> cluster" where
  "Get r obj s =
     (if Fails r (calls s) (GetCall (ObjectKeyFromObject obj)) then Inl ApiFailure
      else case objects s (ObjectKeyFromObject obj) of
             None \<Rightarrow> Inl NotFound
           | Some doc \<Rightarrow> Inr (obj\<lparr>content := doc\<rparr>),
      issue (GetCall (ObjectKeyFromObject obj)) s)"

definition Create ::
  "NamespaceReconciler \<Rightarrow> Unstructured \<Rightarrow> cluster \<Rightarrow> error option \<times> cluster" where
  "Create r obj s =
     (if Fails r (calls s) (CreateCall obj) then (Some ApiFailure, issue (CreateCall obj) s)
      else case objects s (ObjectKeyFromObject obj) of
             Some doc \<Rightarrow> (Some AlreadyExists, issue (CreateCall obj) s)
           | None \<Rightarrow>
               (None, issue (CreateCall obj)
                  (s\<lparr>objects := (objects s)(ObjectKeyFromObject obj \<mapsto> content obj)\<rparr>)))"

definition Update ::
  "NamespaceReconciler \<Rightarrow> Unstructured \<Rightarrow> cluster \<Rightarrow> error option \<times> cluster" where
  "Update r obj s =
     (if Fails r (calls s) (UpdateCall obj) then (Some ApiFailure, issue (UpdateCall obj) s)
      else case objects s (ObjectKeyFromObject obj) of
             None \<Rightarrow> (Some NotFound, issue (UpdateCall obj) s)
           | Some doc \<Rightarrow>
               (None, issue (UpdateCall obj)
                  (s\<lparr>objects := (objects s)(ObjectKeyFromObject obj \<mapsto> content obj)\<rparr>)))"

definition Delete ::
  "NamespaceReconciler \<Rightarrow> Unstructured \<Rightarrow> cluster \<Rightarrow> error option \<times> cluster" where
  "Delete r obj s =
     (if Fails r (calls s) (DeleteCall (ObjectKeyFromObject obj))
      then (Some ApiFailure, issue (DeleteCall (ObjectKeyFromObject obj)) s)
      else case objects s (ObjectKeyFromObject obj) of
             None \<Rightarrow> (Some NotFound, issue (DeleteCall (ObjectKeyFromObject obj)) s)
           | Some doc \<Rightarrow>
               (None, issue (DeleteCall (ObjectKeyFromObject obj))
                  (s\<lparr>objects := (objects s)(ObjectKeyFromObject obj := None)\<rparr>)))"

definition Update_Namespace ::
  "NamespaceReconciler \<Rightarrow> Namespace \<Rightarrow> cluster \<Rightarrow> error option \<times> cluster" where
  "Update_Namespace r n s =
     (if Fails r (calls s) (UpdateNamespaceCall n)
      then (Some ApiFailure, issue (UpdateNamespaceCall n) s)
      else case find (\<lambda>m. ns_Name m = ns_Name n) (namespaces s) of
             None \<Rightarrow> (Some NotFound, issue (UpdateNamespaceCall n) s)
           | Some m \<Rightarrow>
               (None, issue (UpdateNamespaceCall n)
                  (s\<lparr>namespaces := replace_Namespace n (namespaces s)\<rparr>)))"

definition Status_Update ::
  "NamespaceReconciler \<Rightarrow> NamespaceClass \<Rightarrow> cluster \<Rightarrow> error option \<times> cluster" where
  "Status_Update r c s =
     (if Fails r (calls s) (StatusUpdateCall c)
      then (Some ApiFailure, issue (StatusUpdateCall c) s)
      else case find (\<lambda>d. nc_Name d = nc_Name c) (classes s) of
             None \<Rightarrow> (Some NotFound, issue (StatusUpdateCall c) s)
           | Some d \<Rightarrow>
               (None, issue (StatusUpdateCall c)
                  (s\<lparr>classes := replace_Status c (classes s)\<rparr>)))"

definition List_Namespaces ::
  "NamespaceReconciler \<Rightarrow> cluster \<Rightarrow> (error + Namespace list) \<times> cluster" where
  "List_Namespaces r s =
     (if Fails r (calls s) ListNamespacesCall then Inl ApiFailure else Inr (namespaces s),
      issue ListNamespacesCall s)"

section \<open>The controller\<close>

subsection \<open>Fetching the namespace and the class\<close>

text \<open>
  Both helpers return \<^verbatim>\<open>nil\<close> on "not found" and leave the object they were given as it
  was: the caller goes on with its zero value.
\<close>

definition fetchNamespace ::
  "NamespaceReconciler \<Rightarrow> string \<Rightarrow> Namespace \<Rightarrow> cluster
     \<Rightarrow> error option \<times> Namespace \<times> cluster" where
  "fetchNamespace r namespacedName ns s =
     (case Get_Namespace r namespacedName s of
        (Inl err, s1) \<Rightarrow> if err = NotFound then (None, ns, s1) else (Some err, ns, s1)
      | (Inr found, s1) \<Rightarrow> (None, found, s1))"

definition fetchNamespaceClass ::
  "NamespaceReconciler \<Rightarrow> string \<Rightarrow> NamespaceClass \<Rightarrow> cluster
     \<Rightarrow> error option \<times> NamespaceClass \<times> cluster" where
  "fetchNamespaceClass r classLabel nc s =
     (case Get_NamespaceClass r classLabel s of
        (Inl err, s1) \<Rightarrow> if err = NotFound then (None, nc, s1) else (Some err, nc, s1)
      | (Inr found, s1) \<Rightarrow> (None, found, s1))"

subsection \<open>Membership checks\<close>

fun resourceExistsInStatus :: "Unstructured \<Rightarrow> ResourceStatus list \<Rightarrow> bool" where
  "resourceExistsInStatus obj [] = False"
| "resourceExistsInStatus obj (resource # rest) =
     (if Name resource = GetName obj \<and> APIVersion resource = GetAPIVersion obj
         \<and> Kind resource = GetKind obj
      then True else resourceExistsInStatus obj rest)"

definition resourceExistsInNamespaceClassStatus :: "Unstructured \<Rightarrow> NamespaceClass \<Rightarrow> bool" where
  "resourceExistsInNamespaceClassStatus obj nc =
     resourceExistsInStatus obj (nc_Status_Resources nc)"

fun resourceExistsInSpec :: "NamespaceReconciler \<Rightarrow> Unstructured \<Rightarrow> string list \<Rightarrow> bool" where
  "resourceExistsInSpec r obj [] = False"
| "resourceExistsInSpec r obj (newResource # rest) =
     (case UnmarshalJSON r newResource of
        None \<Rightarrow> False
      | Some newObj \<Rightarrow>
          if GroupVersionKind newObj = GroupVersionKind obj then True
          else resourceExistsInSpec r obj rest)"

definition resourceExistsInNamespaceClass ::
  "NamespaceReconciler \<Rightarrow> Unstructured \<Rightarrow> NamespaceClass \<Rightarrow> bool" where
  "resourceExistsInNamespaceClass r obj nc = resourceExistsInSpec r obj (nc_Spec_Resources nc)"

subsection \<open>handleResources\<close>

text \<open>
  One round of the loop, in two halves. The first looks the decoded manifest up and creates
  it when the store has none. When the store has one, \<^verbatim>\<open>Get\<close> has put the stored object
  into \<^verbatim>\<open>obj\<close>, and it is that object which \<^verbatim>\<open>r.Update(ctx, obj)\<close> sends.
  The second half adds the ledger entry and persists the ledger.
\<close>

definition apply_resource ::
  "NamespaceReconciler \<Rightarrow> Unstructured \<Rightarrow> cluster \<Rightarrow> (error + Unstructured) \<times> cluster" where
  "apply_resource r obj s =
     (case Get r obj s of
        (Inl err, s1) \<Rightarrow>
          if err = NotFound then
            (case Create r obj s1 of
               (Some err', s2) \<Rightarrow> (Inl err', s2)
             | (None, s2) \<Rightarrow> (Inr obj, s2))
          else (Inl err, s1)
      | (Inr live, s1) \<Rightarrow>
          (case Update r live s1 of
             (Some err', s2) \<Rightarrow> (Inl err', s2)
           | (None, s2) \<Rightarrow> (Inr live, s2)))"

definition record_status ::
  "NamespaceReconciler \<Rightarrow> Unstructured \<Rightarrow> NamespaceClass \<Rightarrow> cluster
     \<Rightarrow> error option \<times> NamespaceClass \<times> cluster" where
  "record_status r obj nc s =
     (if resourceExistsInNamespaceClassStatus obj nc then (None, nc, s)
      else
        (let nc' = nc\<lparr>nc_Status_Resources := nc_Status_Resources nc @
                     [\<lparr>Kind = GetKind obj, Name = GetName obj, APIVersion = GetAPIVersion obj\<rparr>]\<rparr>
         in case Status_Update r nc' s of (err, s1) \<Rightarrow> (err, nc', s1)))"

fun handleResources_loop ::
  "NamespaceReconciler \<Rightarrow> Namespace \<Rightarrow> string list \<Rightarrow> NamespaceClass \<Rightarrow> cluster
     \<Rightarrow> error option \<times> NamespaceClass \<times> cluster" where
  "handleResources_loop r ns [] nc s = (None, nc, s)"
| "handleResources_loop r ns (resource # rest) nc s =
     (case UnmarshalJSON r resource of
        None \<Rightarrow> (Some DecodeError, nc, s)
      | Some decoded \<Rightarrow>
          (case apply_resource r (decoded\<lparr>GetNamespace := ns_Name ns\<rparr>) s of
             (Inl err, s1) \<Rightarrow> (Some err, nc, s1)
           | (Inr obj, s1) \<Rightarrow>
               (case record_status r obj nc s1 of
                  (Some err, nc', s2) \<Rightarrow> (Some err, nc', s2)
                | (None, nc', s2) \<Rightarrow> handleResources_loop r ns rest nc' s2)))"

definition handleResources ::
  "NamespaceReconciler \<Rightarrow> Namespace \<Rightarrow> NamespaceClass \<Rightarrow> cluster
     \<Rightarrow> error option \<times> NamespaceClass \<times> cluster" where
  "handleResources r ns nc s = handleResources_loop r ns (nc_Spec_Resources nc) nc s"

subsection \<open>handleNamespaceClassChange\<close>

fun handleNamespaceClassChange_loop ::
  "NamespaceReconciler \<Rightarrow> Namespace \<Rightarrow> NamespaceClass \<Rightarrow> string list \<Rightarrow> cluster
     \<Rightarrow> error option \<times> cluster" where
  "handleNamespaceClassChange_loop r ns nc [] s = (None, s)"
| "handleNamespaceClassChange_loop r ns nc (resource # rest) s =
     (case UnmarshalJSON r resource of
        None \<Rightarrow> (Some DecodeError, s)
      | Some decoded \<Rightarrow>
          (case Get r (decoded\<lparr>GetNamespace := ns_Name ns\<rparr>) s of
             (Inl err, s1) \<Rightarrow>
               if err = NotFound then handleNamespaceClassChange_loop r ns nc rest s1
               else (Some err, s1)
           | (Inr obj, s1) \<Rightarrow>
               if resourceExistsInNamespaceClass r obj nc
               then handleNamespaceClassChange_loop r ns nc rest s1
               else
                 (case Delete r obj s1 of
                    (Some err, s2) \<Rightarrow> (Some err, s2)
                  | (None, s2) \<Rightarrow> handleNamespaceClassChange_loop r ns nc rest s2)))"

definition handleNamespaceClassChange ::
  "NamespaceReconciler \<Rightarrow> Namespace \<Rightarrow> string \<Rightarrow> NamespaceClass \<Rightarrow> cluster
     \<Rightarrow> error option \<times> cluster" where
  "handleNamespaceClassChange r ns lastName nc s =
     (case fetchNamespaceClass r lastName zero_NamespaceClass s of
        (Some err, oldNamespaceClass, s1) \<Rightarrow> (Some err, s1)
      | (None, oldNamespaceClass, s1) \<Rightarrow>
          handleNamespaceClassChange_loop r ns nc (nc_Spec_Resources oldNamespaceClass) s1)"

subsection \<open>handleResourcesDeletion\<close>

text \<open>
  Both loops of this function range over \<^verbatim>\<open>namespaceClass.Status.Resources\<close> while its
  body shortens that slice. A Go \<^verbatim>\<open>range\<close> evaluates the slice once, so the number of
  rounds is the length at the start of the loop, and round \<open>i\<close> reads element \<open>i\<close> of the
  backing array as it is then. \<^verbatim>\<open>append(s[:i], s[i+1:]...)\<close> has room in that same array:
  it moves the elements after \<open>i\<close> one place down, leaves the last one where it was, and
  yields a slice one shorter. So the model carries the backing array \<open>arr\<close> next to the
  class, whose ledger is the first \<open>length (nc_Status_Resources nc)\<close> elements of it.
  \<^verbatim>\<open>s[i+1:]\<close> panics when \<open>i + 1\<close> exceeds the length of \<open>s\<close>.
  The loops run over \<open>[0..<n]\<close> for a length \<open>n\<close> of the slice, which never exceeds
  the length of \<open>arr\<close>, so \<open>arr ! i\<close> is always inside the array.
\<close>

definition slice_delete :: "nat \<Rightarrow> nat \<Rightarrow> 'a list \<Rightarrow> 'a list" where
  "slice_delete i n arr = take i arr @ drop (Suc i) (take n arr) @ drop (n - 1) arr"

definition status_matches :: "ResourceStatus \<Rightarrow> Unstructured \<Rightarrow> bool" where
  "status_matches statusResource obj =
     (Name statusResource = GetName obj \<and> APIVersion statusResource = GetAPIVersion obj
      \<and> Kind statusResource = GetKind obj)"

fun remove_status_loop ::
  "NamespaceReconciler \<Rightarrow> Unstructured \<Rightarrow> nat list \<Rightarrow> ResourceStatus list \<Rightarrow> NamespaceClass
     \<Rightarrow> cluster \<Rightarrow> error option \<times> ResourceStatus list \<times> NamespaceClass \<times> cluster" where
  "remove_status_loop r obj [] arr nc s = (None, arr, nc, s)"
| "remove_status_loop r obj (i # rest) arr nc s =
     (if status_matches (arr ! i) obj then
        (if length (nc_Status_Resources nc) < Suc i then (Some SliceBoundsPanic, arr, nc, s)
         else
           (case Status_Update r
                   (nc\<lparr>nc_Status_Resources :=
                        take (length (nc_Status_Resources nc) - 1)
                          (slice_delete i (length (nc_Status_Resources nc)) arr)\<rparr>) s of
              (Some err, s1) \<Rightarrow>
                (Some err, slice_delete i (length (nc_Status_Resources nc)) arr,
                 nc\<lparr>nc_Status_Resources :=
                        take (length (nc_Status_Resources nc) - 1)
                          (slice_delete i (length (nc_Status_Resources nc)) arr)\<rparr>, s1)
            | (None, s1) \<Rightarrow>
                remove_status_loop r obj rest
                  (slice_delete i (length (nc_Status_Resources nc)) arr)
                  (nc\<lparr>nc_Status_Resources :=
                        take (length (nc_Status_Resources nc) - 1)
                          (slice_delete i (length (nc_Status_Resources nc)) arr)\<rparr>) s1))
      else remove_status_loop r obj rest arr nc s)"

definition object_of_status :: "Namespace \<Rightarrow> ResourceStatus \<Rightarrow> Unstructured" where
  "object_of_status ns resource =
     \<lparr>GetAPIVersion = APIVersion resource, GetKind = Kind resource, GetName = Name resource,
      GetNamespace = ns_Name ns, content = []\<rparr>"

fun handleResourcesDeletion_loop ::
  "NamespaceReconciler \<Rightarrow> Namespace \<Rightarrow> nat list \<Rightarrow> ResourceStatus list \<Rightarrow> NamespaceClass
     \<Rightarrow> cluster \<Rightarrow> error option \<times> ResourceStatus list \<times> NamespaceClass \<times> cluster" where
  "handleResourcesDeletion_loop r ns [] arr nc s = (None, arr, nc, s)"
| "handleResourcesDeletion_loop r ns (k # rest) arr nc s =
     (if resourceExistsInNamespaceClass r (object_of_status ns (arr ! k)) nc
      then handleResourcesDeletion_loop r ns rest arr nc s
      else
        (case Delete r (object_of_status ns (arr ! k)) s of
           (Some err, s1) \<Rightarrow> (Some err, arr, nc, s1)
         | (None, s1) \<Rightarrow>
             (case remove_status_loop r (object_of_status ns (arr ! k))
                     [0..<length (nc_Status_Resources nc)] arr nc s1 of
                (Some err, arr', nc', s2) \<Rightarrow> (Some err, arr', nc', s2)
              | (None, arr', nc', s2) \<Rightarrow> handleResourcesDeletion_loop r ns rest arr' nc' s2)))"

definition handleResourcesDeletion ::
  "NamespaceReconciler \<Rightarrow> Namespace \<Rightarrow> NamespaceClass \<Rightarrow> cluster
     \<Rightarrow> error option \<times> NamespaceClass \<times> cluster" where
  "handleResourcesDeletion r ns nc s =
     (case handleResourcesDeletion_loop r ns [0..<length (nc_Status_Resources nc)]
             (nc_Status_Resources nc) nc s of
        (err, arr, nc', s1) \<Rightarrow> (err, nc', s1))"

subsection \<open>handleNamespaceAnnotations\<close>

text \<open>
  The first half sets the annotation in the namespace object held in memory and, when the
  recorded name differs from the class's, runs the class-change sweep with that object.
\<close>

definition set_last_name :: "Namespace \<Rightarrow> NamespaceClass \<Rightarrow> Namespace" where
  "set_last_name ns nc = ns\<lparr>ns_Annotations := (ns_Annotations ns)(last_name \<mapsto> nc_Name nc)\<rparr>"

definition detect_class_change ::
  "NamespaceReconciler \<Rightarrow> Namespace \<Rightarrow> NamespaceClass \<Rightarrow> cluster
     \<Rightarrow> error option \<times> Namespace \<times> cluster" where
  "detect_class_change r ns nc s =
     (case ns_Annotations ns last_name of
        None \<Rightarrow> (None, set_last_name ns nc, s)
      | Some lastName \<Rightarrow>
          if lastName = nc_Name nc then (None, ns, s)
          else
            (case handleNamespaceClassChange r (set_last_name ns nc) lastName nc s of
               (err, s1) \<Rightarrow> (err, set_last_name ns nc, s1)))"

definition handleNamespaceAnnotations ::
  "NamespaceReconciler \<Rightarrow> Namespace \<Rightarrow> NamespaceClass \<Rightarrow> cluster
     \<Rightarrow> error option \<times> Namespace \<times> NamespaceClass \<times> cluster" where
  "handleNamespaceAnnotations r ns nc s =
     (case detect_class_change r ns nc s of
        (Some err, ns1, s1) \<Rightarrow> (Some err, ns1, nc, s1)
      | (None, ns1, s1) \<Rightarrow>
          (case Update_Namespace r ns1 s1 of
             (Some err, s2) \<Rightarrow> (Some err, ns1, nc, s2)
           | (None, s2) \<Rightarrow>
               (case handleResourcesDeletion r ns1 nc s2 of
                  (err, nc', s3) \<Rightarrow> (err, ns1, nc', s3))))"

subsection \<open>Reconcile\<close>

definition Reconcile :: "NamespaceReconciler \<Rightarrow> Request \<Rightarrow> cluster \<Rightarrow> error option \<times> cluster" where
  "Reconcile r req s =
     (case fetchNamespace r (NamespacedName req) zero_Namespace s of
        (Some err, ns, s1) \<Rightarrow> (Some err, s1)
      | (None, ns, s1) \<Rightarrow>
          (case ns_Labels ns class_label of
             None \<Rightarrow> (None, s1)
           | Some classLabel \<Rightarrow>
               (case fetchNamespaceClass r classLabel zero_NamespaceClass s1 of
                  (Some err, nc, s2) \<Rightarrow> (Some err, s2)
                | (None, nc, s2) \<Rightarrow>
                    (case handleResources r ns nc s2 of
                       (Some err, nc', s3) \<Rightarrow> (Some err, s3)
                     | (None, nc', s3) \<Rightarrow>
                         (case handleNamespaceAnnotations r ns nc' s3 of
                            (err, ns', nc'', s4) \<Rightarrow> (err, s4))))))"

subsection \<open>mapNamespaceClassToNamespaces\<close>

text \<open>Reading a Go map at a key it does not have gives the empty string.\<close>

definition label_value :: "Namespace \<Rightarrow> string" where
  "label_value ns = (case ns_Labels ns class_label of None \<Rightarrow> [] | Some v \<Rightarrow> v)"

fun enqueue_loop :: "NamespaceClass \<Rightarrow> Namespace list \<Rightarrow> Request list \<Rightarrow> Request list" where
  "enqueue_loop nc [] reqs = reqs"
| "enqueue_loop nc (ns # rest) reqs =
     (if label_value ns = nc_Name nc
      then enqueue_loop nc rest (reqs @ [\<lparr>NamespacedName = ns_Name ns\<rparr>])
      else enqueue_loop nc rest reqs)"

definition mapNamespaceClassToNamespaces ::
  "NamespaceReconciler \<Rightarrow> Object \<Rightarrow> cluster \<Rightarrow> Request list \<times> cluster" where
  "mapNamespaceClassToNamespaces r obj s =
     (case obj of
        NamespaceClassObject nc \<Rightarrow>
          (case List_Namespaces r s of
             (Inl err, s1) \<Rightarrow> ([], s1)
           | (Inr items, s1) \<Rightarrow> (enqueue_loop nc items [], s1))
      | NamespaceObject ns \<Rightarrow> ([], s)
      | UnstructuredObject u \<Rightarrow> ([], s))"

section \<open>Predicates of the statements\<close>

text \<open>The requests the convergence stage may send.\<close>

fun convergence_call :: "call \<Rightarrow> bool" where
  "convergence_call (GetCall k) = True"
| "convergence_call (CreateCall obj) = True"
| "convergence_call (UpdateCall obj) = True"
| "convergence_call (StatusUpdateCall nc) = True"
| "convergence_call c = False"

text \<open>
  What a step of the convergence stage for the class named \<open>cn\<close> may change: it adds
  requests of the four kinds above, it may add objects, and it may change the ledger of the
  class \<open>cn\<close>.
\<close>

definition convergence_frame :: "string \<Rightarrow> cluster \<Rightarrow> cluster \<Rightarrow> bool" where
  "convergence_frame cn s s' =
     (namespaces s' = namespaces s
      \<and> map nc_Name (classes s') = map nc_Name (classes s)
      \<and> map nc_Spec_Resources (classes s') = map nc_Spec_Resources (classes s)
      \<and> filter (\<lambda>c. nc_Name c \<noteq> cn) (classes s') = filter (\<lambda>c. nc_Name c \<noteq> cn) (classes s)
      \<and> objects s \<subseteq>\<^sub>m objects s'
      \<and> (\<exists>cs. calls s' = calls s @ cs \<and> list_all convergence_call cs))"

text \<open>The requests of the class-change sweep and of the orphan sweep.\<close>

fun teardown_call :: "call \<Rightarrow> bool" where
  "teardown_call (GetNamespaceClassCall n) = True"
| "teardown_call (GetCall k) = True"
| "teardown_call (DeleteCall k) = True"
| "teardown_call c = False"

fun orphan_call :: "call \<Rightarrow> bool" where
  "orphan_call (DeleteCall k) = True"
| "orphan_call (StatusUpdateCall nc) = True"
| "orphan_call c = False"

text \<open>
  What a sweep for a class with the manifests \<open>spec\<close> may change: it sends requests that
  satisfy \<open>P\<close>, it leaves the namespaces alone, and an object is either as it was or gone,
  and gone only when the membership check on \<open>spec\<close> does not hold for it.
\<close>

definition sweep_frame ::
  "NamespaceReconciler \<Rightarrow> string list \<Rightarrow> (call \<Rightarrow> bool) \<Rightarrow> cluster \<Rightarrow> cluster \<Rightarrow> bool" where
  "sweep_frame r spec P s s' =
     (namespaces s' = namespaces s
      \<and> (\<forall>obj. objects s' (ObjectKeyFromObject obj) = objects s (ObjectKeyFromObject obj)
             \<or> (objects s' (ObjectKeyFromObject obj) = None \<and> \<not> resourceExistsInSpec r obj spec))
      \<and> (\<exists>cs. calls s' = calls s @ cs \<and> list_all P cs))"


fun persist_call :: "call \<Rightarrow> bool" where
  "persist_call (UpdateNamespaceCall ns) = True"
| "persist_call c = False"


section \<open>Example inputs\<close>

text \<open>
  A decoder that knows three manifests and rejects every other string, a client that never
  fails, and a few clusters.
\<close>

definition example_codec :: "string \<Rightarrow> Unstructured option" where
  "example_codec raw =
     (if raw = ''X'' then
        Some \<lparr>GetAPIVersion = ''networking.k8s.io/v1'', GetKind = ''NetworkPolicy'',
              GetName = ''x'', GetNamespace = [], content = ''x-doc''\<rparr>
      else if raw = ''Y'' then
        Some \<lparr>GetAPIVersion = ''v1'', GetKind = ''ConfigMap'',
              GetName = ''y'', GetNamespace = [], content = ''y-doc''\<rparr>
      else if raw = ''Z'' then
        Some \<lparr>GetAPIVersion = ''v1'', GetKind = ''LimitRange'',
              GetName = ''z'', GetNamespace = [], content = ''z-doc''\<rparr>
      else None)"

definition no_faults :: "call list \<Rightarrow> call \<Rightarrow> bool" where
  "no_faults h c = False"

definition r0 :: NamespaceReconciler where
  "r0 = \<lparr>UnmarshalJSON = example_codec, Fails = no_faults\<rparr>"

definition labelled :: "string \<Rightarrow> string \<Rightarrow> Namespace" where
  "labelled n c = \<lparr>ns_Name = n, ns_Labels = [class_label \<mapsto> c], ns_Annotations = Map.empty\<rparr>"

definition fanout_cluster :: cluster where
  "fanout_cluster =
     \<lparr>namespaces = [labelled ''blue'' ''public-network'', labelled ''green'' ''internal-network'',
                    zero_Namespace\<lparr>ns_Name := ''plain''\<rparr>, labelled ''red'' ''public-network''],
      classes = [], objects = Map.empty, calls = []\<rparr>"

definition public_network :: NamespaceClass where
  "public_network =
     \<lparr>nc_Name = ''public-network'', nc_Spec_Resources = [''X'', ''Y''], nc_Status_Resources = []\<rparr>"

definition broken_middle :: NamespaceClass where
  "broken_middle =
     \<lparr>nc_Name = ''broken'', nc_Spec_Resources = [''Y'', ''{'', ''Z''], nc_Status_Resources = []\<rparr>"

definition broken_first :: NamespaceClass where
  "broken_first =
     \<lparr>nc_Name = ''broken-first'', nc_Spec_Resources = [''{'', ''Z''],
      nc_Status_Resources = [\<lparr>Kind = ''LimitRange'', Name = ''z'', APIVersion = ''v1''\<rparr>]\<rparr>"

definition object_y :: Unstructured where
  "object_y = \<lparr>GetAPIVersion = ''v1'', GetKind = ''ConfigMap'', GetName = ''y'',
               GetNamespace = ''blue'', content = ''y-live''\<rparr>"

definition object_z :: Unstructured where
  "object_z = \<lparr>GetAPIVersion = ''v1'', GetKind = ''LimitRange'', GetName = ''z'',
               GetNamespace = ''blue'', content = ''z-live''\<rparr>"

definition blue_cluster :: cluster where
  "blue_cluster =
     \<lparr>namespaces = [labelled ''blue'' ''public-network''],
      classes = [public_network],
      objects = [(''v1'', ''ConfigMap'', ''blue'', ''y'') \<mapsto> ''y-live''],
      calls = []\<rparr>"

definition broken_cluster :: cluster where
  "broken_cluster =
     \<lparr>namespaces = [labelled ''blue'' ''broken''],
      classes = [broken_middle], objects = Map.empty, calls = []\<rparr>"

definition blue_request :: Request where
  "blue_request = \<lparr>NamespacedName = ''blue''\<rparr>"

definition key_x :: ObjectKey where
  "key_x = (''networking.k8s.io/v1'', ''NetworkPolicy'', ''blue'', ''x'')"

definition key_y :: ObjectKey where
  "key_y = (''v1'', ''ConfigMap'', ''blue'', ''y'')"

definition key_z :: ObjectKey where
  "key_z = (''v1'', ''LimitRange'', ''blue'', ''z'')"

definition entry_x :: ResourceStatus where
  "entry_x = \<lparr>Kind = ''NetworkPolicy'', Name = ''x'', APIVersion = ''networking.k8s.io/v1''\<rparr>"

definition entry_y :: ResourceStatus where
  "entry_y = \<lparr>Kind = ''ConfigMap'', Name = ''y'', APIVersion = ''v1''\<rparr>"

definition entry_z :: ResourceStatus where
  "entry_z = \<lparr>Kind = ''LimitRange'', Name = ''z'', APIVersion = ''v1''\<rparr>"

definition annotated :: "string \<Rightarrow> string \<Rightarrow> string \<Rightarrow> Namespace" where
  "annotated n c l =
     \<lparr>ns_Name = n, ns_Labels = [class_label \<mapsto> c], ns_Annotations = [last_name \<mapsto> l]\<rparr>"

definition old_class :: NamespaceClass where
  "old_class = \<lparr>nc_Name = ''class-a'', nc_Spec_Resources = [''X'', ''Y''],
                nc_Status_Resources = [entry_x, entry_y]\<rparr>"

definition new_class :: NamespaceClass where
  "new_class = \<lparr>nc_Name = ''class-b'', nc_Spec_Resources = [''Y'', ''Z''],
                nc_Status_Resources = []\<rparr>"

definition switch_cluster :: cluster where
  "switch_cluster =
     \<lparr>namespaces = [annotated ''blue'' ''class-b'' ''class-a''],
      classes = [old_class, new_class],
      objects = [key_x \<mapsto> ''x-live'', key_y \<mapsto> ''y-live''],
      calls = []\<rparr>"

definition ghost_cluster :: cluster where
  "ghost_cluster =
     \<lparr>namespaces = [annotated ''blue'' ''ghost'' ''class-a''],
      classes = [old_class],
      objects = [key_x \<mapsto> ''x-live'', key_y \<mapsto> ''y-live''],
      calls = []\<rparr>"

definition stale_cluster :: cluster where
  "stale_cluster =
     \<lparr>namespaces = [annotated ''blue'' ''class-b'' ''broken''],
      classes = [broken_middle, new_class],
      objects = Map.empty,
      calls = []\<rparr>"

definition shrunk :: NamespaceClass where
  "shrunk = \<lparr>nc_Name = ''shrunk'', nc_Spec_Resources = [''Z''],
             nc_Status_Resources = [entry_x, entry_y, entry_z]\<rparr>"

definition shrunk_cluster :: cluster where
  "shrunk_cluster =
     \<lparr>namespaces = [annotated ''blue'' ''shrunk'' ''shrunk''],
      classes = [shrunk],
      objects = [key_x \<mapsto> ''x-live'', key_y \<mapsto> ''y-live'', key_z \<mapsto> ''z-live''],
      calls = []\<rparr>"

definition shrunk_once :: cluster where
  "shrunk_once = snd (Reconcile r0 blue_request shrunk_cluster)"

definition shrunk_twice :: cluster where
  "shrunk_twice = snd (Reconcile r0 blue_request shrunk_once)"

section \<open>Facts about the client and the store\<close>

lemmas client_defs = Get_def Create_def Update_def Delete_def Status_Update_def
  Update_Namespace_def Get_Namespace_def Get_NamespaceClass_def List_Namespaces_def issue_def

lemmas example_defs = example_codec_def no_faults_def r0_def labelled_def fanout_cluster_def
  public_network_def broken_middle_def broken_first_def object_y_def object_z_def blue_cluster_def
  class_label_def last_name_def zero_Namespace_def zero_NamespaceClass_def
  key_x_def key_y_def key_z_def entry_x_def entry_y_def entry_z_def
  annotated_def old_class_def new_class_def switch_cluster_def ghost_cluster_def
  stale_cluster_def shrunk_def shrunk_cluster_def blue_request_def broken_cluster_def

lemmas controller_defs = Reconcile_def fetchNamespace_def fetchNamespaceClass_def
  handleResources_def apply_resource_def record_status_def
  resourceExistsInNamespaceClassStatus_def resourceExistsInNamespaceClass_def
  handleNamespaceAnnotations_def detect_class_change_def set_last_name_def
  handleNamespaceClassChange_def handleResourcesDeletion_def object_of_status_def
  status_matches_def slice_delete_def GroupVersionKind_def ObjectKeyFromObject_def

lemmas eval_defs = controller_defs client_defs example_defs Let_def

lemma replace_Status_names: "map nc_Name (replace_Status c cs) = map nc_Name cs"
  by (induction cs) simp_all

lemma replace_Status_specs:
  "map nc_Spec_Resources (replace_Status c cs) = map nc_Spec_Resources cs"
  by (induction cs) simp_all

lemma replace_Status_others:
  "filter (\<lambda>d. nc_Name d \<noteq> nc_Name c) (replace_Status c cs)
     = filter (\<lambda>d. nc_Name d \<noteq> nc_Name c) cs"
  by (induction cs) simp_all

lemma key_content [simp]:
  "ObjectKeyFromObject (obj\<lparr>content := d\<rparr>) = ObjectKeyFromObject obj"
  by (simp add: ObjectKeyFromObject_def)

lemma Get_Inr:
  "Get r obj s = (Inr live, s') \<Longrightarrow>
     live = obj\<lparr>content := content live\<rparr>
     \<and> objects s (ObjectKeyFromObject obj) = Some (content live)"
  by (auto simp: client_defs split: if_splits option.splits)

lemma Get_Inr_key:
  "Get r obj s = (Inr live, s') \<Longrightarrow> ObjectKeyFromObject live = ObjectKeyFromObject obj"
  by (auto simp: client_defs split: if_splits option.splits)

lemma Get_state: "Get r obj s = (res, s') \<Longrightarrow> s' = issue (GetCall (ObjectKeyFromObject obj)) s"
  by (simp add: Get_def)

text \<open>
  Removing element \<open>i\<close> of a slice of length \<open>n\<close> keeps the backing array's length,
  and the slice one shorter is the old slice without that element.
\<close>

lemma slice_delete_length:
  "i < n \<Longrightarrow> n \<le> length arr \<Longrightarrow> length (slice_delete i n arr) = length arr"
  by (simp add: slice_delete_def)

lemma slice_delete_slice:
  "i < n \<Longrightarrow> n \<le> length arr \<Longrightarrow>
   take (n - 1) (slice_delete i n arr) = take i (take n arr) @ drop (Suc i) (take n arr)"
proof -
  assume a: "i < n" "n \<le> length arr"
  have "length (take i arr @ drop (Suc i) (take n arr)) = n - 1"
    using a by simp
  then have "take (n - 1) ((take i arr @ drop (Suc i) (take n arr)) @ drop (n - 1) arr)
               = take i arr @ drop (Suc i) (take n arr)"
    by (metis append_eq_conv_conj)
  moreover have "take i (take n arr) = take i arr" using a by (simp add: min_def)
  ultimately show ?thesis by (simp add: slice_delete_def)
qed

lemma find_filter_imp:
  "(\<And>x. P x \<Longrightarrow> Q x) \<Longrightarrow> find P (filter Q xs) = find P xs"
  by (induction xs) auto

lemma find_other_class:
  assumes "filter (\<lambda>c. nc_Name c \<noteq> b) cs' = filter (\<lambda>c. nc_Name c \<noteq> b) cs" and "a \<noteq> b"
  shows "find (\<lambda>c. nc_Name c = a) cs' = find (\<lambda>c. nc_Name c = a) cs"
proof -
  have "find (\<lambda>c. nc_Name c = a) (filter (\<lambda>c. nc_Name c \<noteq> b) xs) = find (\<lambda>c. nc_Name c = a) xs"
    for xs
    using assms(2) by (intro find_filter_imp) simp
  then show ?thesis using assms(1) by metis
qed

lemma map_le_Some: "m \<subseteq>\<^sub>m m' \<Longrightarrow> m k = Some v \<Longrightarrow> m' k = Some v"
  by (auto simp: map_le_def dom_def)

lemma map_le_live: "m \<subseteq>\<^sub>m m' \<Longrightarrow> m k \<noteq> None \<Longrightarrow> m' k \<noteq> None"
  by (auto simp: map_le_def dom_def)

lemma find_Some_holds: "find P xs = Some x \<Longrightarrow> P x"
  by (induction xs) (auto split: if_splits)

lemma fetchNamespace_found:
  "\<not> Fails r (calls s) (GetNamespaceCall key) \<Longrightarrow>
   find (\<lambda>n. ns_Name n = key) (namespaces s) = Some ns \<Longrightarrow>
   fetchNamespace r key z s = (None, ns, issue (GetNamespaceCall key) s)"
  by (simp add: fetchNamespace_def Get_Namespace_def)

lemma fetchNamespaceClass_found:
  "\<not> Fails r (calls s) (GetNamespaceClassCall key) \<Longrightarrow>
   find (\<lambda>c. nc_Name c = key) (classes s) = Some nc \<Longrightarrow>
   fetchNamespaceClass r key z s = (None, nc, issue (GetNamespaceClassCall key) s)"
  by (simp add: fetchNamespaceClass_def Get_NamespaceClass_def)


lemma find_replace_Namespace:
  "find (\<lambda>m. ns_Name m = ns_Name n) ms = Some m \<Longrightarrow>
   find (\<lambda>m. ns_Name m = ns_Name n) (replace_Namespace n ms) = Some n"
  by (induction ms) (auto split: if_splits)

lemma Update_Namespace_effect:
  "Update_Namespace r n s = (res, s') \<Longrightarrow>
     objects s' = objects s \<and> calls s' = calls s @ [UpdateNamespaceCall n]
     \<and> (res = None \<longrightarrow> find (\<lambda>m. ns_Name m = ns_Name n) (namespaces s') = Some n)"
  by (auto simp: client_defs find_replace_Namespace split: if_splits option.splits)

lemma Delete_gone:
  "Delete r obj s = (None, s') \<Longrightarrow> objects s' (ObjectKeyFromObject obj) = None"
  by (auto simp: client_defs split: if_splits option.splits)

lemma Get_NotFound:
  "Get r obj s = (Inl NotFound, s') \<Longrightarrow> objects s' (ObjectKeyFromObject obj) = None"
  by (auto simp: client_defs split: if_splits option.splits)

section \<open>The watch-to-request mapper\<close>

lemma enqueue_loop_filter:
  "enqueue_loop nc items reqs =
     reqs @ map (\<lambda>ns. \<lparr>NamespacedName = ns_Name ns\<rparr>)
              (filter (\<lambda>ns. label_value ns = nc_Name nc) items)"
  by (induction items arbitrary: reqs) simp_all

lemma label_value_Some:
  "v \<noteq> [] \<Longrightarrow> (label_value ns = v) = (ns_Labels ns class_label = Some v)"
  by (auto simp: label_value_def split: option.splits)

text \<open>
  C6. For a class with a name, the mapper returns one request per listed namespace whose
  class label is that name, in the order of the list, and nothing when the list call
  fails; the result depends on the class's name and the listed namespaces only, and the
  store is left as it was but for the record of the list call.
\<close>

theorem mapNamespaceClassToNamespaces_requests:
  assumes "nc_Name nc \<noteq> []"
  shows "mapNamespaceClassToNamespaces r (NamespaceClassObject nc) s =
           (if Fails r (calls s) ListNamespacesCall then []
            else map (\<lambda>ns. \<lparr>NamespacedName = ns_Name ns\<rparr>)
                   (filter (\<lambda>ns. ns_Labels ns class_label = Some (nc_Name nc)) (namespaces s)),
            issue ListNamespacesCall s)"
  using assms
  by (simp add: mapNamespaceClassToNamespaces_def List_Namespaces_def enqueue_loop_filter
        label_value_Some)

theorem mapNamespaceClassToNamespaces_requests_witness:
  "nc_Name public_network \<noteq> [] \<and>
   fst (mapNamespaceClassToNamespaces r0 (NamespaceClassObject public_network) fanout_cluster) =
     [\<lparr>NamespacedName = ''blue''\<rparr>, \<lparr>NamespacedName = ''red''\<rparr>]"
proof -
  have h: "nc_Name public_network \<noteq> []" by (simp add: public_network_def)
  show ?thesis
    using h mapNamespaceClassToNamespaces_requests [OF h, of r0 fanout_cluster]
    by (simp add: example_defs)
qed

section \<open>The membership check on the declared set\<close>

lemma resourceExistsInSpec_stops:
  "UnmarshalJSON r bad = None \<Longrightarrow>
   resourceExistsInSpec r obj (pre @ bad # post) = resourceExistsInSpec r obj pre"
  by (induction pre) (simp_all split: option.splits)

lemma resourceExistsInSpec_iff:
  "\<forall>m\<in>set pre. UnmarshalJSON r m \<noteq> None \<Longrightarrow>
   resourceExistsInSpec r obj pre =
     (\<exists>m\<in>set pre. \<exists>newObj. UnmarshalJSON r m = Some newObj
        \<and> GroupVersionKind newObj = GroupVersionKind obj)"
  by (induction pre) (auto split: option.splits)

lemma resourceExistsInSpec_gvk:
  "GroupVersionKind obj' = GroupVersionKind obj \<Longrightarrow>
   resourceExistsInSpec r obj' rs = resourceExistsInSpec r obj rs"
  by (induction rs) (auto split: option.splits)

lemma resourceExistsInSpec_key:
  "ObjectKeyFromObject obj' = ObjectKeyFromObject obj \<Longrightarrow>
   resourceExistsInSpec r obj' rs = resourceExistsInSpec r obj rs"
  by (rule resourceExistsInSpec_gvk) (simp add: ObjectKeyFromObject_def GroupVersionKind_def)

lemma resourceExistsInSpec_member:
  assumes "\<forall>m\<in>set rs. UnmarshalJSON r m \<noteq> None" and "m \<in> set rs"
    and "UnmarshalJSON r m = Some d" and "GroupVersionKind obj = GroupVersionKind d"
  shows "resourceExistsInSpec r obj rs"
  using assms resourceExistsInSpec_iff [OF assms(1), of obj] by auto

text \<open>
  C9, as stated, fails: with an undecodable manifest in the list the check still answers
  true for an object that a manifest before it declares.
\<close>

theorem resourceExistsInNamespaceClass_counterexample:
  "UnmarshalJSON r0 (nc_Spec_Resources broken_middle ! 1) = None
   \<and> resourceExistsInNamespaceClass r0 object_y broken_middle"
  by (simp add: resourceExistsInNamespaceClass_def GroupVersionKind_def example_defs)

text \<open>
  C9, amended. When the first undecodable manifest of the class is \<open>bad\<close>, the check
  answers for the manifests before it: true exactly when one of them has the queried
  object's group-version-kind. The decode error is not reported, and no manifest after
  \<open>bad\<close> is consulted, so an object that only a later manifest declares counts as
  undeclared.
\<close>

theorem resourceExistsInNamespaceClass_decode_failure:
  assumes "nc_Spec_Resources nc = pre @ bad # post"
    and "UnmarshalJSON r bad = None"
    and "\<forall>m\<in>set pre. UnmarshalJSON r m \<noteq> None"
  shows "resourceExistsInNamespaceClass r obj nc =
           (\<exists>m\<in>set pre. \<exists>newObj. UnmarshalJSON r m = Some newObj
              \<and> GroupVersionKind newObj = GroupVersionKind obj)"
  using assms
  by (simp add: resourceExistsInNamespaceClass_def resourceExistsInSpec_stops
        resourceExistsInSpec_iff)

theorem resourceExistsInNamespaceClass_decode_failure_witness:
  "nc_Spec_Resources broken_middle = [''Y''] @ ''{'' # [''Z'']
   \<and> UnmarshalJSON r0 ''{'' = None
   \<and> UnmarshalJSON r0 ''Z'' = Some (object_z\<lparr>GetNamespace := [], content := ''z-doc''\<rparr>)
   \<and> \<not> resourceExistsInNamespaceClass r0 object_z broken_middle"
proof -
  have a: "nc_Spec_Resources broken_middle = [''Y''] @ ''{'' # [''Z'']"
    by (simp add: example_defs)
  have b: "UnmarshalJSON r0 ''{'' = None" by (simp add: example_defs)
  have c: "\<forall>m\<in>set [''Y'']. UnmarshalJSON r0 m \<noteq> None" by (simp add: example_defs)
  show ?thesis
    using a b resourceExistsInNamespaceClass_decode_failure [OF a b c, of object_z]
    by (simp add: GroupVersionKind_def example_defs)
qed

text \<open>
  Called on its own with such a class, the orphan sweep deletes an object that a manifest
  after the undecodable one declares.
\<close>

lemma handleResourcesDeletion_deletes_declared:
  "UnmarshalJSON r0 ''Z'' = Some (object_z\<lparr>GetNamespace := [], content := ''z-doc''\<rparr>)
   \<and> objects shrunk_cluster key_z = Some ''z-live''
   \<and> objects (snd (snd (handleResourcesDeletion r0 (labelled ''blue'' ''broken-first'')
         broken_first shrunk_cluster))) key_z = None"
  by (simp add: eval_defs upt_rec)

section \<open>The convergence stage changes nothing else\<close>

lemma convergence_frame_refl: "convergence_frame cn s s"
  by (simp add: convergence_frame_def)

lemma convergence_frame_trans:
  "convergence_frame cn s s1 \<Longrightarrow> convergence_frame cn s1 s2 \<Longrightarrow> convergence_frame cn s s2"
  unfolding convergence_frame_def
  by (auto intro: map_le_trans)

lemma Get_frame: "Get r obj s = (res, s') \<Longrightarrow> convergence_frame cn s s'"
  by (auto simp: client_defs convergence_frame_def)

lemma Create_frame: "Create r obj s = (res, s') \<Longrightarrow> convergence_frame cn s s'"
  by (auto simp: client_defs convergence_frame_def map_le_def split: if_splits option.splits)

lemma Update_frame:
  "Update r obj s = (res, s') \<Longrightarrow> objects s (ObjectKeyFromObject obj) = Some (content obj) \<Longrightarrow>
   convergence_frame cn s s'"
  by (auto simp: client_defs convergence_frame_def map_le_def split: if_splits option.splits)

lemma Status_Update_frame:
  "Status_Update r c s = (res, s') \<Longrightarrow> convergence_frame (nc_Name c) s s'"
  by (auto simp: client_defs convergence_frame_def replace_Status_names replace_Status_specs
        replace_Status_others split: if_splits option.splits)

lemma apply_resource_frame:
  assumes "apply_resource r obj s = (res, s')"
  shows "convergence_frame cn s s'"
proof (cases "Get r obj s")
  case (Pair g s1)
  have f1: "convergence_frame cn s s1" using Pair by (rule Get_frame)
  show ?thesis
  proof (cases g)
    case (Inl err)
    show ?thesis
    proof (cases "err = NotFound")
      case True
      obtain c s2 where C: "Create r obj s1 = (c, s2)" by (cases "Create r obj s1")
      have "s' = s2" using assms Pair Inl True C
        by (auto simp: apply_resource_def split: option.splits)
      with C f1 show ?thesis by (auto intro: convergence_frame_trans Create_frame)
    next
      case False
      then have "s' = s1" using assms Pair Inl by (simp add: apply_resource_def)
      with f1 show ?thesis by simp
    qed
  next
    case (Inr live)
    obtain u s2 where U: "Update r live s1 = (u, s2)" by (cases "Update r live s1")
    have "s' = s2" using assms Pair Inr U
      by (auto simp: apply_resource_def split: option.splits)
    moreover have "objects s1 (ObjectKeyFromObject live) = Some (content live)"
      using Pair Inr Get_Inr [of r obj s live s1] Get_Inr_key [of r obj s live s1]
        Get_state [of r obj s g s1]
      by (simp add: issue_def)
    ultimately show ?thesis using U f1
      by (auto intro: convergence_frame_trans Update_frame)
  qed
qed

lemma record_status_frame:
  "record_status r obj nc s = (res, nc', s') \<Longrightarrow> convergence_frame (nc_Name nc) s s'"
  by (auto simp: record_status_def Let_def convergence_frame_refl
        split: if_splits prod.splits dest: Status_Update_frame)

lemma record_status_name:
  "record_status r obj nc s = (res, nc', s') \<Longrightarrow> nc_Name nc' = nc_Name nc"
  by (auto simp: record_status_def Let_def split: if_splits prod.splits)

lemma handleResources_loop_frame:
  "handleResources_loop r ns rs nc s = (res, nc', s') \<Longrightarrow> convergence_frame (nc_Name nc) s s'"
proof (induction rs arbitrary: nc s)
  case Nil
  then show ?case by (simp add: convergence_frame_refl)
next
  case (Cons resource rest)
  show ?case
  proof (cases "UnmarshalJSON r resource")
    case None
    with Cons.prems show ?thesis by (simp add: convergence_frame_refl)
  next
    case (Some decoded)
    obtain a s1 where A: "apply_resource r (decoded\<lparr>GetNamespace := ns_Name ns\<rparr>) s = (a, s1)"
      by (cases "apply_resource r (decoded\<lparr>GetNamespace := ns_Name ns\<rparr>) s")
    have f1: "convergence_frame (nc_Name nc) s s1" using A by (rule apply_resource_frame)
    show ?thesis
    proof (cases a)
      case (Inl err)
      with Cons.prems Some A f1 show ?thesis by simp
    next
      case (Inr obj)
      obtain e nc1 s2 where R: "record_status r obj nc s1 = (e, nc1, s2)"
        by (cases "record_status r obj nc s1")
      have f2: "convergence_frame (nc_Name nc) s s2"
        using f1 record_status_frame [OF R] by (rule convergence_frame_trans)
      have n1: "nc_Name nc1 = nc_Name nc" using R by (rule record_status_name)
      show ?thesis
      proof (cases e)
        case None
        then have "handleResources_loop r ns rest nc1 s2 = (res, nc', s')"
          using Cons.prems Some A Inr R by simp
        then have "convergence_frame (nc_Name nc) s2 s'"
          using Cons.IH n1 by metis
        with f2 show ?thesis by (rule convergence_frame_trans)
      next
        case (Some err)
        then have "s' = s2" using Cons.prems \<open>UnmarshalJSON r resource = Some decoded\<close> A Inr R
          by simp
        with f2 show ?thesis by simp
      qed
    qed
  qed
qed

text \<open>
  C10. Whatever its result, \<open>handleResources\<close> leaves the namespaces of the store as they
  were, deletes no object and changes the document of none that existed, keeps the names
  and the manifests of all classes and everything of the classes with another name than
  the one it is run for, and sends only get, create, update and status-update requests.
  The namespace object in memory is an argument it does not return.
\<close>

theorem handleResources_frame:
  assumes "handleResources r ns nc s = (err, nc', s')"
  shows "namespaces s' = namespaces s
       \<and> map nc_Name (classes s') = map nc_Name (classes s)
       \<and> map nc_Spec_Resources (classes s') = map nc_Spec_Resources (classes s)
       \<and> filter (\<lambda>c. nc_Name c \<noteq> nc_Name nc) (classes s')
           = filter (\<lambda>c. nc_Name c \<noteq> nc_Name nc) (classes s)
       \<and> objects s \<subseteq>\<^sub>m objects s'
       \<and> (\<exists>cs. calls s' = calls s @ cs \<and> list_all convergence_call cs)"
  using handleResources_loop_frame [of r ns "nc_Spec_Resources nc" nc s err nc' s'] assms
  by (simp add: handleResources_def convergence_frame_def)

theorem handleResources_frame_witness:
  "fst (handleResources r0 (labelled ''blue'' ''public-network'') public_network blue_cluster) = None
   \<and> namespaces (snd (snd (handleResources r0 (labelled ''blue'' ''public-network'')
         public_network blue_cluster))) = namespaces blue_cluster
   \<and> objects blue_cluster \<subseteq>\<^sub>m objects (snd (snd (handleResources r0
         (labelled ''blue'' ''public-network'') public_network blue_cluster)))
   \<and> (\<exists>cs. calls (snd (snd (handleResources r0 (labelled ''blue'' ''public-network'')
         public_network blue_cluster))) = calls blue_cluster @ cs \<and> list_all convergence_call cs)"
proof -
  have e: "fst (handleResources r0 (labelled ''blue'' ''public-network'') public_network
             blue_cluster) = None"
    by (simp add: handleResources_def apply_resource_def record_status_def
          resourceExistsInNamespaceClassStatus_def ObjectKeyFromObject_def Let_def
          client_defs example_defs)
  have h: "handleResources r0 (labelled ''blue'' ''public-network'') public_network blue_cluster =
     (fst (handleResources r0 (labelled ''blue'' ''public-network'') public_network blue_cluster),
      fst (snd (handleResources r0 (labelled ''blue'' ''public-network'') public_network
           blue_cluster)),
      snd (snd (handleResources r0 (labelled ''blue'' ''public-network'') public_network
           blue_cluster)))"
    by simp
  from handleResources_frame [OF h] e show ?thesis by blast
qed

section \<open>An undecodable manifest\<close>





section \<open>What the sweeps may change\<close>

lemma sweep_frame_refl: "sweep_frame r spec P s s"
  by (simp add: sweep_frame_def)

lemma sweep_frame_trans:
  assumes "sweep_frame r spec P s s1" and "sweep_frame r spec P s1 s2"
  shows "sweep_frame r spec P s s2"
proof -
  have "namespaces s2 = namespaces s" using assms by (simp add: sweep_frame_def)
  moreover have "\<exists>cs. calls s2 = calls s @ cs \<and> list_all P cs"
    using assms by (auto simp: sweep_frame_def)
  moreover have "objects s2 (ObjectKeyFromObject obj) = objects s (ObjectKeyFromObject obj)
             \<or> (objects s2 (ObjectKeyFromObject obj) = None \<and> \<not> resourceExistsInSpec r obj spec)"
    for obj
    using assms unfolding sweep_frame_def by metis
  ultimately show ?thesis by (simp add: sweep_frame_def)
qed

lemma Get_sweep: "Get r obj s = (res, s') \<Longrightarrow> P (GetCall (ObjectKeyFromObject obj)) \<Longrightarrow>
   sweep_frame r spec P s s'"
  by (auto simp: client_defs sweep_frame_def)

lemma Delete_sweep:
  assumes "Delete r obj s = (res, s')" and "\<not> resourceExistsInSpec r obj spec"
    and "P (DeleteCall (ObjectKeyFromObject obj))"
  shows "sweep_frame r spec P s s'"
proof -
  have "objects s' (ObjectKeyFromObject o') = objects s (ObjectKeyFromObject o')
             \<or> (objects s' (ObjectKeyFromObject o') = None \<and> \<not> resourceExistsInSpec r o' spec)"
    for o'
  proof (cases "ObjectKeyFromObject o' = ObjectKeyFromObject obj")
    case True
    then have "\<not> resourceExistsInSpec r o' spec"
      using assms(2) resourceExistsInSpec_key by blast
    moreover have "objects s' (ObjectKeyFromObject o') = objects s (ObjectKeyFromObject o')
       \<or> objects s' (ObjectKeyFromObject o') = None"
      using assms(1) by (auto simp: client_defs split: if_splits option.splits)
    ultimately show ?thesis by blast
  next
    case False
    then show ?thesis
      using assms(1) by (auto simp: client_defs split: if_splits option.splits)
  qed
  moreover have "namespaces s' = namespaces s"
    using assms(1) by (auto simp: client_defs split: if_splits option.splits)
  moreover have "\<exists>cs. calls s' = calls s @ cs \<and> list_all P cs"
    using assms(1,3) by (auto simp: client_defs split: if_splits option.splits)
  ultimately show ?thesis by (simp add: sweep_frame_def)
qed

lemma Status_Update_sweep:
  "Status_Update r c s = (res, s') \<Longrightarrow> P (StatusUpdateCall c) \<Longrightarrow> sweep_frame r spec P s s'"
  by (auto simp: client_defs sweep_frame_def split: if_splits option.splits)

lemma Get_NamespaceClass_sweep:
  "Get_NamespaceClass r key s = (res, s') \<Longrightarrow> P (GetNamespaceClassCall key) \<Longrightarrow>
   sweep_frame r spec P s s'"
  by (auto simp: client_defs sweep_frame_def)

lemma sweep_frame_gone:
  "sweep_frame r spec P s s' \<Longrightarrow> objects s (ObjectKeyFromObject obj) = None \<Longrightarrow>
   objects s' (ObjectKeyFromObject obj) = None"
  unfolding sweep_frame_def by metis

lemma sweep_frame_kept:
  "sweep_frame r spec P s s' \<Longrightarrow> resourceExistsInSpec r obj spec \<Longrightarrow>
   objects s' (ObjectKeyFromObject obj) = objects s (ObjectKeyFromObject obj)"
  unfolding sweep_frame_def by metis

subsection \<open>The class-change sweep\<close>

lemma handleNamespaceClassChange_loop_frame:
  "handleNamespaceClassChange_loop r ns nc rs s = (res, s') \<Longrightarrow>
   sweep_frame r (nc_Spec_Resources nc) teardown_call s s'"
proof (induction rs arbitrary: s)
  case Nil
  then show ?case by (simp add: sweep_frame_refl)
next
  case (Cons resource rest)
  show ?case
  proof (cases "UnmarshalJSON r resource")
    case None
    with Cons.prems show ?thesis by (simp add: sweep_frame_refl)
  next
    case (Some decoded)
    let ?obj = "decoded\<lparr>GetNamespace := ns_Name ns\<rparr>"
    obtain g s1 where G: "Get r ?obj s = (g, s1)" by (cases "Get r ?obj s")
    have f1: "sweep_frame r (nc_Spec_Resources nc) teardown_call s s1"
      using G by (rule Get_sweep) simp
    show ?thesis
    proof (cases g)
      case (Inl err)
      show ?thesis
      proof (cases "err = NotFound")
        case True
        then have "handleNamespaceClassChange_loop r ns nc rest s1 = (res, s')"
          using Cons.prems Some G Inl by simp
        then have "sweep_frame r (nc_Spec_Resources nc) teardown_call s1 s'" by (rule Cons.IH)
        with f1 show ?thesis by (rule sweep_frame_trans)
      next
        case False
        then have "s' = s1" using Cons.prems Some G Inl by simp
        with f1 show ?thesis by simp
      qed
    next
      case (Inr obj)
      show ?thesis
      proof (cases "resourceExistsInNamespaceClass r obj nc")
        case True
        then have "handleNamespaceClassChange_loop r ns nc rest s1 = (res, s')"
          using Cons.prems Some G Inr by simp
        then have "sweep_frame r (nc_Spec_Resources nc) teardown_call s1 s'" by (rule Cons.IH)
        with f1 show ?thesis by (rule sweep_frame_trans)
      next
        case False
        obtain d s2 where D: "Delete r obj s1 = (d, s2)" by (cases "Delete r obj s1")
        have "sweep_frame r (nc_Spec_Resources nc) teardown_call s1 s2"
          using D False by (intro Delete_sweep) (simp_all add: resourceExistsInNamespaceClass_def)
        with f1 have f2: "sweep_frame r (nc_Spec_Resources nc) teardown_call s s2"
          by (rule sweep_frame_trans)
        show ?thesis
        proof (cases d)
          case None
          then have "handleNamespaceClassChange_loop r ns nc rest s2 = (res, s')"
            using Cons.prems Some G Inr False D by simp
          then have "sweep_frame r (nc_Spec_Resources nc) teardown_call s2 s'" by (rule Cons.IH)
          with f2 show ?thesis by (rule sweep_frame_trans)
        next
          case (Some err)
          then have "s' = s2"
            using Cons.prems \<open>UnmarshalJSON r resource = Some decoded\<close> G Inr False D by simp
          with f2 show ?thesis by simp
        qed
      qed
    qed
  qed
qed

lemma handleNamespaceClassChange_frame:
  assumes "handleNamespaceClassChange r ns lastName nc s = (res, s')"
  shows "sweep_frame r (nc_Spec_Resources nc) teardown_call s s'"
proof -
  obtain g s1 where G: "Get_NamespaceClass r lastName s = (g, s1)"
    by (cases "Get_NamespaceClass r lastName s")
  have f1: "sweep_frame r (nc_Spec_Resources nc) teardown_call s s1"
    using G by (rule Get_NamespaceClass_sweep) simp
  obtain e old s2 where F: "fetchNamespaceClass r lastName zero_NamespaceClass s = (e, old, s2)"
    by (cases "fetchNamespaceClass r lastName zero_NamespaceClass s")
  have "s2 = s1" using F G by (auto simp: fetchNamespaceClass_def split: sum.splits if_splits)
  show ?thesis
  proof (cases e)
    case None
    then have "handleNamespaceClassChange_loop r ns nc (nc_Spec_Resources old) s1 = (res, s')"
      using assms F \<open>s2 = s1\<close> by (simp add: handleNamespaceClassChange_def)
    then have "sweep_frame r (nc_Spec_Resources nc) teardown_call s1 s'"
      by (rule handleNamespaceClassChange_loop_frame)
    with f1 show ?thesis by (rule sweep_frame_trans)
  next
    case (Some err)
    then have "s' = s1" using assms F \<open>s2 = s1\<close> by (simp add: handleNamespaceClassChange_def)
    with f1 show ?thesis by simp
  qed
qed

lemma handleNamespaceClassChange_loop_deletes:
  "handleNamespaceClassChange_loop r ns nc rs s = (None, s') \<Longrightarrow> m \<in> set rs \<Longrightarrow>
   UnmarshalJSON r m = Some d \<Longrightarrow> \<not> resourceExistsInNamespaceClass r d nc \<Longrightarrow>
   objects s' (ObjectKeyFromObject (d\<lparr>GetNamespace := ns_Name ns\<rparr>)) = None"
proof (induction rs arbitrary: s)
  case Nil
  then show ?case by simp
next
  case (Cons resource rest)
  let ?k = "ObjectKeyFromObject (d\<lparr>GetNamespace := ns_Name ns\<rparr>)"
  obtain decoded where Dc: "UnmarshalJSON r resource = Some decoded"
    using Cons.prems(1) by (cases "UnmarshalJSON r resource") simp_all
  let ?obj = "decoded\<lparr>GetNamespace := ns_Name ns\<rparr>"
  obtain g s1 where G: "Get r ?obj s = (g, s1)" by (cases "Get r ?obj s")
  txt \<open>the state in which the rest of the list is swept\<close>
  obtain sm where M: "handleNamespaceClassChange_loop r ns nc rest sm = (None, s')"
    and H: "resource = m \<longrightarrow> objects sm ?k = None"
  proof (cases g)
    case (Inl err)
    then have e: "err = NotFound" using Cons.prems(1) Dc G by (auto split: if_splits)
    then have "handleNamespaceClassChange_loop r ns nc rest s1 = (None, s')"
      using Cons.prems(1) Dc G Inl by simp
    moreover have "resource = m \<longrightarrow> objects s1 ?k = None"
      using Get_NotFound [of r ?obj s s1] G Inl e Dc Cons.prems(3) by auto
    ultimately show ?thesis using that by blast
  next
    case (Inr obj)
    have k: "ObjectKeyFromObject obj = ObjectKeyFromObject ?obj"
      using G Inr by (auto dest: Get_Inr_key)
    show ?thesis
    proof (cases "resourceExistsInNamespaceClass r obj nc")
      case True
      have "resource \<noteq> m"
      proof
        assume "resource = m"
        then have "decoded = d" using Dc Cons.prems(3) by simp
        then have "resourceExistsInSpec r d (nc_Spec_Resources nc)
                 = resourceExistsInSpec r obj (nc_Spec_Resources nc)"
          using k by (intro resourceExistsInSpec_gvk)
            (simp add: ObjectKeyFromObject_def GroupVersionKind_def)
        then show False using True Cons.prems(4) by (simp add: resourceExistsInNamespaceClass_def)
      qed
      moreover have "handleNamespaceClassChange_loop r ns nc rest s1 = (None, s')"
        using Cons.prems(1) Dc G Inr True by simp
      ultimately show ?thesis using that by blast
    next
      case False
      obtain dl s2 where D: "Delete r obj s1 = (dl, s2)" by (cases "Delete r obj s1")
      then have "dl = None" using Cons.prems(1) Dc G Inr False by (cases dl) simp_all
      then have "handleNamespaceClassChange_loop r ns nc rest s2 = (None, s')"
        using Cons.prems(1) Dc G Inr False D by simp
      moreover have "resource = m \<longrightarrow> objects s2 ?k = None"
        using Delete_gone [of r obj s1 s2] D \<open>dl = None\<close> k Dc Cons.prems(3) by auto
      ultimately show ?thesis using that by blast
    qed
  qed
  show ?case
  proof (cases "resource = m")
    case True
    then have "objects sm ?k = None" using H by simp
    then show ?thesis
      using handleNamespaceClassChange_loop_frame [OF M] sweep_frame_gone by blast
  next
    case False
    then have "m \<in> set rest" using Cons.prems(2) by simp
    then show ?thesis using Cons.IH [OF M] Cons.prems(3,4) by blast
  qed
qed

lemma handleNamespaceClassChange_deletes:
  assumes "handleNamespaceClassChange r ns lastName nc s = (None, s')"
    and "find (\<lambda>c. nc_Name c = lastName) (classes s) = Some old"
    and "m \<in> set (nc_Spec_Resources old)" and "UnmarshalJSON r m = Some d"
    and "\<not> resourceExistsInNamespaceClass r d nc"
  shows "objects s' (ObjectKeyFromObject (d\<lparr>GetNamespace := ns_Name ns\<rparr>)) = None"
proof -
  have n: "\<not> Fails r (calls s) (GetNamespaceClassCall lastName)"
    using assms(1)
    by (auto simp: handleNamespaceClassChange_def fetchNamespaceClass_def Get_NamespaceClass_def)
  have "fetchNamespaceClass r lastName zero_NamespaceClass s
          = (None, old, issue (GetNamespaceClassCall lastName) s)"
    using n assms(2) by (rule fetchNamespaceClass_found)
  then have "handleNamespaceClassChange_loop r ns nc (nc_Spec_Resources old)
               (issue (GetNamespaceClassCall lastName) s) = (None, s')"
    using assms(1) by (simp add: handleNamespaceClassChange_def)
  then show ?thesis using assms(3,4,5) by (rule handleNamespaceClassChange_loop_deletes)
qed

subsection \<open>The orphan sweep\<close>

lemma remove_status_loop_frame:
  "remove_status_loop r obj is arr nc s = (res, arr', nc', s') \<Longrightarrow>
   sweep_frame r spec orphan_call s s' \<and> nc_Spec_Resources nc' = nc_Spec_Resources nc"
proof (induction "is" arbitrary: arr nc s)
  case Nil
  then show ?case by (simp add: sweep_frame_refl)
next
  case (Cons i rest)
  show ?case
  proof (cases "status_matches (arr ! i) obj")
    case False
    then show ?thesis using Cons.prems Cons.IH by simp
  next
    case True
    show ?thesis
    proof (cases "length (nc_Status_Resources nc) < Suc i")
      case True
      then show ?thesis using Cons.prems \<open>status_matches (arr ! i) obj\<close>
        by (simp add: sweep_frame_refl)
    next
      case False
      let ?arr = "slice_delete i (length (nc_Status_Resources nc)) arr"
      let ?nc = "nc\<lparr>nc_Status_Resources := take (length (nc_Status_Resources nc) - 1) ?arr\<rparr>"
      obtain u s1 where U: "Status_Update r ?nc s = (u, s1)" by (cases "Status_Update r ?nc s")
      have f1: "sweep_frame r spec orphan_call s s1"
        using U by (rule Status_Update_sweep) simp
      show ?thesis
      proof (cases u)
        case None
        then have "remove_status_loop r obj rest ?arr ?nc s1 = (res, arr', nc', s')"
          using Cons.prems True False U by simp
        then have "sweep_frame r spec orphan_call s1 s'
            \<and> nc_Spec_Resources nc' = nc_Spec_Resources ?nc"
          by (rule Cons.IH)
        with f1 show ?thesis by (auto intro: sweep_frame_trans)
      next
        case (Some err)
        then have "s' = s1 \<and> nc' = ?nc" using Cons.prems True False U by auto
        with f1 show ?thesis by simp
      qed
    qed
  qed
qed

lemma handleResourcesDeletion_loop_frame:
  "handleResourcesDeletion_loop r ns ks arr nc s = (res, arr', nc', s') \<Longrightarrow>
   sweep_frame r (nc_Spec_Resources nc) orphan_call s s'"
proof (induction ks arbitrary: arr nc s)
  case Nil
  then show ?case by (simp add: sweep_frame_refl)
next
  case (Cons k rest)
  let ?obj = "object_of_status ns (arr ! k)"
  show ?case
  proof (cases "resourceExistsInNamespaceClass r ?obj nc")
    case True
    then show ?thesis using Cons.prems Cons.IH by simp
  next
    case False
    obtain d s1 where D: "Delete r ?obj s = (d, s1)" by (cases "Delete r ?obj s")
    have f1: "sweep_frame r (nc_Spec_Resources nc) orphan_call s s1"
      using D False by (intro Delete_sweep) (simp_all add: resourceExistsInNamespaceClass_def)
    show ?thesis
    proof (cases d)
      case (Some err)
      then have "s' = s1" using Cons.prems False D by simp
      with f1 show ?thesis by simp
    next
      case None
      obtain e arr1 nc1 s2 where
        R: "remove_status_loop r ?obj [0..<length (nc_Status_Resources nc)] arr nc s1
              = (e, arr1, nc1, s2)"
        by (cases "remove_status_loop r ?obj [0..<length (nc_Status_Resources nc)] arr nc s1")
      have f2: "sweep_frame r (nc_Spec_Resources nc) orphan_call s1 s2"
        and sp: "nc_Spec_Resources nc1 = nc_Spec_Resources nc"
        using remove_status_loop_frame [OF R] by simp_all
      have f3: "sweep_frame r (nc_Spec_Resources nc) orphan_call s s2"
        using f1 f2 by (rule sweep_frame_trans)
      show ?thesis
      proof (cases e)
        case (Some err)
        then have "s' = s2" using Cons.prems False D None R by simp
        with f3 show ?thesis by simp
      next
        case None
        then have "handleResourcesDeletion_loop r ns rest arr1 nc1 s2 = (res, arr', nc', s')"
          using Cons.prems False D \<open>d = None\<close> R by simp
        then have "sweep_frame r (nc_Spec_Resources nc1) orphan_call s2 s'" by (rule Cons.IH)
        with f3 sp show ?thesis by (auto intro: sweep_frame_trans)
      qed
    qed
  qed
qed

lemma handleResourcesDeletion_frame:
  "handleResourcesDeletion r ns nc s = (res, nc', s') \<Longrightarrow>
   sweep_frame r (nc_Spec_Resources nc) orphan_call s s'"
  by (auto simp: handleResourcesDeletion_def split: prod.splits
        dest: handleResourcesDeletion_loop_frame)

section \<open>The order of the annotation stage\<close>

lemma detect_class_change_annotation:
  "detect_class_change r ns nc s = (e1, ns1, s1) \<Longrightarrow>
   ns_Annotations ns1 last_name = Some (nc_Name nc) \<and> ns_Name ns1 = ns_Name ns"
  by (auto simp: detect_class_change_def set_last_name_def
        split: option.splits if_splits prod.splits)

lemma detect_class_change_frame:
  "detect_class_change r ns nc s = (e1, ns1, s1) \<Longrightarrow>
   sweep_frame r (nc_Spec_Resources nc) teardown_call s s1"
  by (auto simp: detect_class_change_def sweep_frame_refl
        split: option.splits if_splits prod.splits dest: handleNamespaceClassChange_frame)

text \<open>
  C7, as stated, fails. In the first pass below the class-change sweep stops at an
  undecodable manifest of the old class, and the stage, which was reached (only it asks
  for the old class), sends no namespace update at all. In the second pass the namespace
  update is the fifth of seven requests: the orphan sweep of the same stage follows it.
\<close>

theorem handleNamespaceAnnotations_counterexample:
  "fst (Reconcile r0 blue_request stale_cluster) = Some DecodeError
   \<and> GetNamespaceClassCall ''broken'' \<in> set (calls (snd (Reconcile r0 blue_request stale_cluster)))
   \<and> filter persist_call (calls (snd (Reconcile r0 blue_request stale_cluster))) = []
   \<and> fst (Reconcile r0 blue_request shrunk_cluster) = None
   \<and> persist_call (calls (snd (Reconcile r0 blue_request shrunk_cluster)) ! 4)
   \<and> length (calls (snd (Reconcile r0 blue_request shrunk_cluster))) = 7"
  by (simp add: eval_defs upt_rec)

text \<open>
  C7, amended. The first half of the stage leaves the class's name in the annotation of
  the namespace object in memory; when the recorded name differs, the class-change sweep
  is run with that object, and the requests of this half are those of the sweep. When the
  sweep returns an error the stage returns it and the namespace is not persisted. Otherwise
  the namespace object is sent in one update, after every request of the class-change
  sweep, also when no class change was detected or the annotation was unset; the requests
  that follow it are those of the orphan sweep, none of which persists the namespace.
\<close>

theorem handleNamespaceAnnotations_order:
  assumes "detect_class_change r ns nc s = (e1, ns1, s1)"
    and "handleNamespaceAnnotations r ns nc s = (err, ns', nc', s')"
  shows "ns_Annotations ns1 last_name = Some (nc_Name nc)
       \<and> (\<forall>lastName. ns_Annotations ns last_name = Some lastName \<and> lastName \<noteq> nc_Name nc
            \<longrightarrow> handleNamespaceClassChange r ns1 lastName nc s = (e1, s1))
       \<and> (\<exists>cs. calls s1 = calls s @ cs \<and> list_all teardown_call cs)
       \<and> (e1 \<noteq> None \<longrightarrow> err = e1 \<and> s' = s1)
       \<and> (e1 = None \<longrightarrow>
            (\<exists>cs. calls s' = calls s1 @ UpdateNamespaceCall ns1 # cs \<and> list_all orphan_call cs))"
proof -
  have a: "ns_Annotations ns1 last_name = Some (nc_Name nc)"
    using assms(1) by (simp add: detect_class_change_annotation)
  have b: "\<forall>lastName. ns_Annotations ns last_name = Some lastName \<and> lastName \<noteq> nc_Name nc
            \<longrightarrow> handleNamespaceClassChange r ns1 lastName nc s = (e1, s1)"
    using assms(1) by (auto simp: detect_class_change_def split: prod.splits)
  have c: "\<exists>cs. calls s1 = calls s @ cs \<and> list_all teardown_call cs"
    using detect_class_change_frame [OF assms(1)] by (simp add: sweep_frame_def)
  have d: "e1 \<noteq> None \<longrightarrow> err = e1 \<and> s' = s1"
    using assms by (auto simp: handleNamespaceAnnotations_def)
  have e: "\<exists>cs. calls s' = calls s1 @ UpdateNamespaceCall ns1 # cs \<and> list_all orphan_call cs"
    if n: "e1 = None"
  proof -
    obtain u s2 where U: "Update_Namespace r ns1 s1 = (u, s2)"
      by (cases "Update_Namespace r ns1 s1")
    have c2: "calls s2 = calls s1 @ [UpdateNamespaceCall ns1]"
      using Update_Namespace_effect [OF U] by simp
    show ?thesis
    proof (cases u)
      case (Some e2)
      then have "s' = s2" using assms n U by (simp add: handleNamespaceAnnotations_def)
      with c2 show ?thesis by simp
    next
      case None
      obtain e3 nc3 s3 where H: "handleResourcesDeletion r ns1 nc s2 = (e3, nc3, s3)"
        by (cases "handleResourcesDeletion r ns1 nc s2")
      have "s' = s3" using assms n U None H by (simp add: handleNamespaceAnnotations_def)
      moreover obtain cs where "calls s3 = calls s2 @ cs" "list_all orphan_call cs"
        using handleResourcesDeletion_frame [OF H] by (auto simp: sweep_frame_def)
      ultimately show ?thesis using c2 by simp
    qed
  qed
  from a b c d e show ?thesis by blast
qed

theorem handleNamespaceAnnotations_order_witness:
  "fst (detect_class_change r0 (annotated ''blue'' ''class-b'' ''class-a'') new_class
          switch_cluster) = None
   \<and> ns_Annotations (fst (snd (detect_class_change r0 (annotated ''blue'' ''class-b'' ''class-a'')
        new_class switch_cluster))) last_name = Some ''class-b''
   \<and> (\<exists>cs. calls (snd (snd (snd (handleNamespaceAnnotations r0
               (annotated ''blue'' ''class-b'' ''class-a'') new_class switch_cluster))))
          = calls (snd (snd (detect_class_change r0 (annotated ''blue'' ''class-b'' ''class-a'')
               new_class switch_cluster)))
            @ UpdateNamespaceCall (fst (snd (detect_class_change r0
                (annotated ''blue'' ''class-b'' ''class-a'') new_class switch_cluster))) # cs
          \<and> list_all orphan_call cs)"
proof -
  let ?ns = "annotated ''blue'' ''class-b'' ''class-a''"
  let ?d = "detect_class_change r0 ?ns new_class switch_cluster"
  let ?h = "handleNamespaceAnnotations r0 ?ns new_class switch_cluster"
  have e: "fst ?d = None"
    by (simp add: eval_defs)
  then have D: "?d = (None, fst (snd ?d), snd (snd ?d))"
    by (metis prod.collapse)
  have H: "?h = (fst ?h, fst (snd ?h), fst (snd (snd ?h)), snd (snd (snd ?h)))"
    by simp
  have "nc_Name new_class = ''class-b''" by (simp add: example_defs)
  with e handleNamespaceAnnotations_order [OF D H] show ?thesis by simp
qed

section \<open>A change of class\<close>

text \<open>What a successful run of the convergence loop has done.\<close>

lemma apply_resource_live:
  "apply_resource r obj s = (Inr obj', s') \<Longrightarrow>
     objects s' (ObjectKeyFromObject obj) \<noteq> None
     \<and> ObjectKeyFromObject obj' = ObjectKeyFromObject obj"
  by (auto simp: apply_resource_def client_defs split: if_splits option.splits)

lemma record_status_spec:
  "record_status r obj nc s = (res, nc', s') \<Longrightarrow>
   nc_Spec_Resources nc' = nc_Spec_Resources nc \<and> nc_Name nc' = nc_Name nc"
  by (auto simp: record_status_def Let_def split: if_splits prod.splits)

lemma handleResources_loop_class:
  "handleResources_loop r ns rs nc s = (res, nc', s') \<Longrightarrow>
   nc_Spec_Resources nc' = nc_Spec_Resources nc \<and> nc_Name nc' = nc_Name nc"
proof (induction rs arbitrary: nc s)
  case Nil
  then show ?case by simp
next
  case (Cons resource rest)
  show ?case
  proof (cases "UnmarshalJSON r resource")
    case None
    with Cons.prems show ?thesis by simp
  next
    case (Some decoded)
    obtain a s1 where A: "apply_resource r (decoded\<lparr>GetNamespace := ns_Name ns\<rparr>) s = (a, s1)"
      by (cases "apply_resource r (decoded\<lparr>GetNamespace := ns_Name ns\<rparr>) s")
    show ?thesis
    proof (cases a)
      case (Inl err)
      with Cons.prems Some A show ?thesis by simp
    next
      case (Inr obj)
      obtain e nc1 s2 where R: "record_status r obj nc s1 = (e, nc1, s2)"
        by (cases "record_status r obj nc s1")
      note c1 = record_status_spec [OF R]
      show ?thesis
      proof (cases e)
        case None
        then have "handleResources_loop r ns rest nc1 s2 = (res, nc', s')"
          using Cons.prems Some A Inr R by simp
        then show ?thesis using Cons.IH c1 by metis
      next
        case (Some err)
        then have "nc' = nc1"
          using Cons.prems \<open>UnmarshalJSON r resource = Some decoded\<close> A Inr R by simp
        with c1 show ?thesis by simp
      qed
    qed
  qed
qed

lemma handleResources_loop_applied:
  "handleResources_loop r ns rs nc s = (None, nc', s') \<Longrightarrow> m \<in> set rs \<Longrightarrow>
   \<exists>d. UnmarshalJSON r m = Some d
     \<and> objects s' (ObjectKeyFromObject (d\<lparr>GetNamespace := ns_Name ns\<rparr>)) \<noteq> None"
proof (induction rs arbitrary: nc s)
  case Nil
  then show ?case by simp
next
  case (Cons resource rest)
  obtain decoded where Dc: "UnmarshalJSON r resource = Some decoded"
    using Cons.prems(1) by (cases "UnmarshalJSON r resource") simp_all
  let ?obj = "decoded\<lparr>GetNamespace := ns_Name ns\<rparr>"
  obtain a s1 where A: "apply_resource r ?obj s = (a, s1)" by (cases "apply_resource r ?obj s")
  obtain obj where I: "a = Inr obj" using Cons.prems(1) Dc A by (cases a) simp_all
  obtain e nc1 s2 where R: "record_status r obj nc s1 = (e, nc1, s2)"
    by (cases "record_status r obj nc s1")
  have "e = None" using Cons.prems(1) Dc A I R by (cases e) simp_all
  then have L: "handleResources_loop r ns rest nc1 s2 = (None, nc', s')"
    using Cons.prems(1) Dc A I R by simp
  show ?case
  proof (cases "resource = m")
    case False
    then have "m \<in> set rest" using Cons.prems(2) by simp
    with L show ?thesis by (rule Cons.IH)
  next
    case True
    have live: "objects s1 (ObjectKeyFromObject ?obj) \<noteq> None"
      using apply_resource_live A I by blast
    have "objects s1 \<subseteq>\<^sub>m objects s2"
      using record_status_frame [OF R] by (simp add: convergence_frame_def)
    moreover have "objects s2 \<subseteq>\<^sub>m objects s'"
      using handleResources_loop_frame [OF L] by (simp add: convergence_frame_def)
    ultimately have "objects s1 \<subseteq>\<^sub>m objects s'" by (rule map_le_trans)
    then have "objects s' (ObjectKeyFromObject ?obj) \<noteq> None"
      using live by (rule map_le_live)
    with True Dc show ?thesis by simp
  qed
qed

text \<open>
  The sweeps of a pass ask the membership check about the class that \<open>handleResources\<close>
  has just run through, so in a pass the check never meets an undecodable manifest.
\<close>

lemma handleResources_decodes_all:
  assumes "handleResources r ns nc s = (None, nc', s')"
  shows "\<forall>m\<in>set (nc_Spec_Resources nc'). UnmarshalJSON r m \<noteq> None"
proof -
  have L: "handleResources_loop r ns (nc_Spec_Resources nc) nc s = (None, nc', s')"
    using assms by (simp add: handleResources_def)
  have "\<forall>m\<in>set (nc_Spec_Resources nc). UnmarshalJSON r m \<noteq> None"
    using handleResources_loop_applied [OF L] by fastforce
  then show ?thesis using handleResources_loop_class [OF L] by simp
qed

text \<open>The stages of a successful pass.\<close>

lemma Reconcile_success:
  assumes "Reconcile r req s = (None, s')"
    and "find (\<lambda>n. ns_Name n = NamespacedName req) (namespaces s) = Some ns"
    and "ns_Labels ns class_label = Some classLabel"
    and "find (\<lambda>c. nc_Name c = classLabel) (classes s) = Some nc"
  shows "\<exists>nc1 s3 ns' nc2.
           handleResources r ns nc
             (issue (GetNamespaceClassCall classLabel)
                (issue (GetNamespaceCall (NamespacedName req)) s)) = (None, nc1, s3)
           \<and> handleNamespaceAnnotations r ns nc1 s3 = (None, ns', nc2, s')"
proof -
  let ?s1 = "issue (GetNamespaceCall (NamespacedName req)) s"
  let ?s2 = "issue (GetNamespaceClassCall classLabel) ?s1"
  have n: "\<not> Fails r (calls s) (GetNamespaceCall (NamespacedName req))"
    using assms(1) by (auto simp: Reconcile_def fetchNamespace_def Get_Namespace_def)
  have f1: "fetchNamespace r (NamespacedName req) zero_Namespace s = (None, ns, ?s1)"
    using n assms(2) by (rule fetchNamespace_found)
  have c: "\<not> Fails r (calls ?s1) (GetNamespaceClassCall classLabel)"
    using assms(1,3) f1
    by (auto simp: Reconcile_def fetchNamespaceClass_def Get_NamespaceClass_def)
  have f2: "fetchNamespaceClass r classLabel zero_NamespaceClass ?s1 = (None, nc, ?s2)"
    using c assms(4) by (intro fetchNamespaceClass_found) (simp_all add: issue_def)
  show ?thesis
    using assms(1,3) f1 f2
    by (auto simp: Reconcile_def split: prod.splits option.splits)
qed

lemma handleNamespaceAnnotations_success:
  assumes "handleNamespaceAnnotations r ns nc s = (None, ns', nc', s')"
  shows "\<exists>ns1 s1 s2. detect_class_change r ns nc s = (None, ns1, s1)
           \<and> Update_Namespace r ns1 s1 = (None, s2)
           \<and> handleResourcesDeletion r ns1 nc s2 = (None, nc', s')"
  using assms
  by (auto simp: handleNamespaceAnnotations_def split: prod.splits option.splits)

lemma annotation_stage_objects:
  assumes "handleNamespaceAnnotations r ns nc s = (None, ns', nc', s')"
  shows "objects s' (ObjectKeyFromObject obj) = objects s (ObjectKeyFromObject obj)
       \<or> (objects s' (ObjectKeyFromObject obj) = None
          \<and> \<not> resourceExistsInSpec r obj (nc_Spec_Resources nc))"
proof -
  obtain ns1 s1 s2 where D: "detect_class_change r ns nc s = (None, ns1, s1)"
    and U: "Update_Namespace r ns1 s1 = (None, s2)"
    and H: "handleResourcesDeletion r ns1 nc s2 = (None, nc', s')"
    using handleNamespaceAnnotations_success [OF assms] by blast
  have "sweep_frame r (nc_Spec_Resources nc) teardown_call s s1"
    using D by (rule detect_class_change_frame)
  moreover have "objects s2 = objects s1" using Update_Namespace_effect [OF U] by simp
  moreover have "sweep_frame r (nc_Spec_Resources nc) orphan_call s2 s'"
    using H by (rule handleResourcesDeletion_frame)
  ultimately show ?thesis unfolding sweep_frame_def by metis
qed

text \<open>
  C4. A namespace is labelled with the class \<open>B\<close> and its last-name annotation holds the
  name of another class \<open>A\<close>. After a pass without error: the object of every manifest of
  \<open>A\<close> whose group-version-kind \<open>B\<close> does not declare is gone from the namespace; every
  object of a group-version-kind that \<open>B\<close> declares and that was live before is still
  live, with the document it had; every manifest of \<open>B\<close> has a live object in the
  namespace; and the stored namespace carries the name of \<open>B\<close> in its last-name
  annotation.
\<close>

theorem Reconcile_class_change:
  assumes "Reconcile r req s = (None, s')"
    and "find (\<lambda>n. ns_Name n = NamespacedName req) (namespaces s) = Some ns"
    and "ns_Labels ns class_label = Some b"
    and "find (\<lambda>c. nc_Name c = b) (classes s) = Some B"
    and "ns_Annotations ns last_name = Some a"
    and "a \<noteq> b"
    and "find (\<lambda>c. nc_Name c = a) (classes s) = Some A"
  shows "(\<forall>x\<in>set (nc_Spec_Resources A). \<forall>d. UnmarshalJSON r x = Some d
            \<and> \<not> resourceExistsInNamespaceClass r d B
            \<longrightarrow> objects s' (ObjectKeyFromObject (d\<lparr>GetNamespace := ns_Name ns\<rparr>)) = None)
       \<and> (\<forall>obj doc. objects s (ObjectKeyFromObject obj) = Some doc
            \<and> resourceExistsInNamespaceClass r obj B
            \<longrightarrow> objects s' (ObjectKeyFromObject obj) = Some doc)
       \<and> (\<forall>z\<in>set (nc_Spec_Resources B). \<exists>d. UnmarshalJSON r z = Some d
            \<and> objects s' (ObjectKeyFromObject (d\<lparr>GetNamespace := ns_Name ns\<rparr>)) \<noteq> None)
       \<and> (\<exists>ns'. find (\<lambda>n. ns_Name n = NamespacedName req) (namespaces s') = Some ns'
            \<and> ns_Annotations ns' last_name = Some b)"
proof -
  let ?s2 = "issue (GetNamespaceClassCall b) (issue (GetNamespaceCall (NamespacedName req)) s)"
  obtain nc1 s3 ns' nc2 where HR: "handleResources r ns B ?s2 = (None, nc1, s3)"
    and HA: "handleNamespaceAnnotations r ns nc1 s3 = (None, ns', nc2, s')"
    using Reconcile_success [OF assms(1-4)] by blast
  have L: "handleResources_loop r ns (nc_Spec_Resources B) B ?s2 = (None, nc1, s3)"
    using HR by (simp add: handleResources_def)
  have nb: "nc_Name B = b" using assms(4) by (auto dest: find_Some_holds)
  have nn: "ns_Name ns = NamespacedName req" using assms(2) by (auto dest: find_Some_holds)
  have cl: "nc_Spec_Resources nc1 = nc_Spec_Resources B" "nc_Name nc1 = b"
    using handleResources_loop_class [OF L] nb by simp_all
  have fr: "convergence_frame b ?s2 s3"
    using handleResources_loop_frame [OF L] nb by simp
  have dec: "\<forall>m\<in>set (nc_Spec_Resources B). UnmarshalJSON r m \<noteq> None"
    using handleResources_loop_applied [OF L] by fastforce
  obtain ns1 s4 s5 where D: "detect_class_change r ns nc1 s3 = (None, ns1, s4)"
    and U: "Update_Namespace r ns1 s4 = (None, s5)"
    and H: "handleResourcesDeletion r ns1 nc1 s5 = (None, nc2, s')"
    using handleNamespaceAnnotations_success [OF HA] by blast
  have D': "handleNamespaceClassChange r (set_last_name ns nc1) a nc1 s3 = (None, s4)"
    using D assms(5,6) cl(2) by (auto simp: detect_class_change_def split: prod.splits)
  have n1: "ns_Name ns1 = ns_Name ns" "ns_Annotations ns1 last_name = Some b"
    using detect_class_change_annotation [OF D] cl(2) by simp_all
  have stage: "objects s' (ObjectKeyFromObject obj) = objects s3 (ObjectKeyFromObject obj)
       \<or> (objects s' (ObjectKeyFromObject obj) = None
          \<and> \<not> resourceExistsInSpec r obj (nc_Spec_Resources B))" for obj
    using annotation_stage_objects [OF HA, of obj] cl(1) by simp
  txt \<open>the objects that only the old class declares are gone\<close>
  have X: "objects s' (ObjectKeyFromObject (d\<lparr>GetNamespace := ns_Name ns\<rparr>)) = None"
    if "x \<in> set (nc_Spec_Resources A)" "UnmarshalJSON r x = Some d"
      "\<not> resourceExistsInNamespaceClass r d B" for x d
  proof -
    have "find (\<lambda>c. nc_Name c = a) (classes s3) = find (\<lambda>c. nc_Name c = a) (classes ?s2)"
      using fr assms(6) by (intro find_other_class [of b]) (simp_all add: convergence_frame_def)
    then have fa: "find (\<lambda>c. nc_Name c = a) (classes s3) = Some A"
      using assms(7) by (simp add: issue_def)
    have "\<not> resourceExistsInNamespaceClass r d nc1"
      using that(3) cl(1) by (simp add: resourceExistsInNamespaceClass_def)
    then have "objects s4 (ObjectKeyFromObject (d\<lparr>GetNamespace := ns_Name (set_last_name ns nc1)\<rparr>))
        = None"
      using handleNamespaceClassChange_deletes [OF D' fa that(1,2)] by simp
    then have "objects s4 (ObjectKeyFromObject (d\<lparr>GetNamespace := ns_Name ns\<rparr>)) = None"
      by (simp add: set_last_name_def)
    then have "objects s5 (ObjectKeyFromObject (d\<lparr>GetNamespace := ns_Name ns\<rparr>)) = None"
      using Update_Namespace_effect [OF U] by simp
    then show ?thesis
      using handleResourcesDeletion_frame [OF H] sweep_frame_gone by blast
  qed
  txt \<open>the objects of a kind the new class declares are as they were\<close>
  have Y: "objects s' (ObjectKeyFromObject obj) = Some doc"
    if "objects s (ObjectKeyFromObject obj) = Some doc" "resourceExistsInNamespaceClass r obj B"
    for obj doc
  proof -
    have "objects ?s2 (ObjectKeyFromObject obj) = Some doc" using that(1) by (simp add: issue_def)
    moreover have "objects ?s2 \<subseteq>\<^sub>m objects s3" using fr by (simp add: convergence_frame_def)
    ultimately have "objects s3 (ObjectKeyFromObject obj) = Some doc"
      by (rule map_le_Some [rotated])
    then show ?thesis
      using stage [of obj] that(2) by (simp add: resourceExistsInNamespaceClass_def)
  qed
  txt \<open>the objects of the new class exist\<close>
  have Z: "\<exists>d. UnmarshalJSON r z = Some d
            \<and> objects s' (ObjectKeyFromObject (d\<lparr>GetNamespace := ns_Name ns\<rparr>)) \<noteq> None"
    if zin: "z \<in> set (nc_Spec_Resources B)" for z
  proof -
    obtain d where d: "UnmarshalJSON r z = Some d"
      "objects s3 (ObjectKeyFromObject (d\<lparr>GetNamespace := ns_Name ns\<rparr>)) \<noteq> None"
      using handleResources_loop_applied [OF L zin] by blast
    have "resourceExistsInSpec r (d\<lparr>GetNamespace := ns_Name ns\<rparr>) (nc_Spec_Resources B)"
      using dec zin d(1)
      by (rule resourceExistsInSpec_member) (simp add: GroupVersionKind_def)
    then have "objects s' (ObjectKeyFromObject (d\<lparr>GetNamespace := ns_Name ns\<rparr>)) \<noteq> None"
      using stage [of "d\<lparr>GetNamespace := ns_Name ns\<rparr>"] d(2) by auto
    with d(1) show ?thesis by blast
  qed
  txt \<open>the annotation is persisted\<close>
  have "find (\<lambda>m. ns_Name m = ns_Name ns1) (namespaces s5) = Some ns1"
    using Update_Namespace_effect [OF U] by simp
  moreover have "namespaces s' = namespaces s5"
    using handleResourcesDeletion_frame [OF H] by (simp add: sweep_frame_def)
  ultimately have W: "\<exists>ns'. find (\<lambda>n. ns_Name n = NamespacedName req) (namespaces s') = Some ns'
            \<and> ns_Annotations ns' last_name = Some b"
    using n1 nn by auto
  from X Y Z W show ?thesis by blast
qed

theorem Reconcile_class_change_witness:
  "Reconcile r0 blue_request switch_cluster = (None, snd (Reconcile r0 blue_request switch_cluster))
   \<and> find (\<lambda>n. ns_Name n = NamespacedName blue_request) (namespaces switch_cluster)
        = Some (annotated ''blue'' ''class-b'' ''class-a'')
   \<and> find (\<lambda>c. nc_Name c = ''class-b'') (classes switch_cluster) = Some new_class
   \<and> find (\<lambda>c. nc_Name c = ''class-a'') (classes switch_cluster) = Some old_class
   \<and> objects (snd (Reconcile r0 blue_request switch_cluster)) key_x = None
   \<and> objects (snd (Reconcile r0 blue_request switch_cluster)) key_y = Some ''y-live''
   \<and> objects (snd (Reconcile r0 blue_request switch_cluster)) key_z \<noteq> None
   \<and> (\<exists>ns'. find (\<lambda>n. ns_Name n = NamespacedName blue_request)
               (namespaces (snd (Reconcile r0 blue_request switch_cluster))) = Some ns'
          \<and> ns_Annotations ns' last_name = Some ''class-b'')"
proof -
  let ?ns = "annotated ''blue'' ''class-b'' ''class-a''"
  let ?s' = "snd (Reconcile r0 blue_request switch_cluster)"
  have "fst (Reconcile r0 blue_request switch_cluster) = None"
    by (simp add: eval_defs)
  then have R: "Reconcile r0 blue_request switch_cluster = (None, ?s')"
    by (metis prod.collapse)
  have N: "find (\<lambda>n. ns_Name n = NamespacedName blue_request) (namespaces switch_cluster)
        = Some ?ns"
    by (simp add: example_defs)
  have L: "ns_Labels ?ns class_label = Some ''class-b''"
    by (simp add: example_defs)
  have B: "find (\<lambda>c. nc_Name c = ''class-b'') (classes switch_cluster) = Some new_class"
    by (simp add: example_defs)
  have An: "ns_Annotations ?ns last_name = Some ''class-a''"
    by (simp add: example_defs)
  have AB: "''class-a'' \<noteq> ''class-b''" by simp
  have A: "find (\<lambda>c. nc_Name c = ''class-a'') (classes switch_cluster) = Some old_class"
    by (simp add: example_defs)
  note T = Reconcile_class_change [OF R N L B An AB A]
  have x: "objects ?s' key_x = None"
    using T
    by (simp add: example_defs resourceExistsInNamespaceClass_def
          GroupVersionKind_def ObjectKeyFromObject_def)
  have "resourceExistsInNamespaceClass r0 object_y new_class"
    by (simp add: example_defs resourceExistsInNamespaceClass_def
          GroupVersionKind_def)
  moreover have "ObjectKeyFromObject object_y = key_y"
    by (simp add: example_defs ObjectKeyFromObject_def)
  moreover have "objects switch_cluster key_y = Some ''y-live''"
    by (simp add: example_defs)
  ultimately have y: "objects ?s' key_y = Some ''y-live''"
    using T by metis
  have z: "objects ?s' key_z \<noteq> None"
    using T
    by (simp add: example_defs ObjectKeyFromObject_def)
  from R N B A x y z T show ?thesis by blast
qed

section \<open>A class that does not exist\<close>








section \<open>An object that exists is sent back as it is\<close>

lemma apply_resource_present:
  assumes "objects s (ObjectKeyFromObject obj) = Some doc"
    and "apply_resource r obj s = (res, s')"
  shows "objects s' = objects s"
proof (cases "Fails r (calls s) (GetCall (ObjectKeyFromObject obj))")
  case True
  then show ?thesis using assms(2) by (auto simp: apply_resource_def client_defs)
next
  case False
  then have "Get r obj s = (Inr (obj\<lparr>content := doc\<rparr>), issue (GetCall (ObjectKeyFromObject obj)) s)"
    using assms(1) by (simp add: Get_def)
  then have "s' = snd (Update r (obj\<lparr>content := doc\<rparr>) (issue (GetCall (ObjectKeyFromObject obj)) s))"
    using assms(2) by (auto simp: apply_resource_def split: prod.splits option.splits)
  then show ?thesis
    using assms(1) by (auto simp: client_defs split: if_splits option.splits)
qed

text \<open>
  C3. The manifest \<open>Y\<close> of the class has the document \<open>y-doc\<close>; the namespace has an
  object at its address with the document \<open>y-live\<close>. The pass succeeds, and the object
  still has the document \<open>y-live\<close>: the update sent what \<open>Get\<close> had read, as it does for
  every object that is present (lemma \<open>apply_resource_present\<close>). The manifest \<open>X\<close>, which
  had no object, was created with its own document, and both have their ledger entry.
\<close>

theorem Reconcile_keeps_live_document:
  "UnmarshalJSON r0 ''Y'' =
      Some \<lparr>GetAPIVersion = ''v1'', GetKind = ''ConfigMap'', GetName = ''y'',
            GetNamespace = [], content = ''y-doc''\<rparr>
   \<and> objects blue_cluster key_y = Some ''y-live''
   \<and> fst (Reconcile r0 blue_request blue_cluster) = None
   \<and> objects (snd (Reconcile r0 blue_request blue_cluster)) key_y = Some ''y-live''
   \<and> objects (snd (Reconcile r0 blue_request blue_cluster)) key_x = Some ''x-doc''
   \<and> map nc_Status_Resources (classes (snd (Reconcile r0 blue_request blue_cluster)))
       = [[entry_x, entry_y]]"
  by (simp add: eval_defs)

section \<open>The orphan sweep skips the entry after a removed one\<close>

text \<open>
  C5. The ledger holds the entries of \<open>x\<close>, \<open>y\<close> and \<open>z\<close>, and the class declares only
  the kind of \<open>z\<close>. The sweep returns no error, but the object \<open>y\<close> is still live and its
  entry is still in the ledger: removing the entry of \<open>x\<close> moved the entry of \<open>y\<close> to the
  place the loop had just left.
\<close>

theorem handleResourcesDeletion_skips_entry:
  "\<not> resourceExistsInNamespaceClass r0
        (object_of_status (annotated ''blue'' ''shrunk'' ''shrunk'') entry_y) shrunk
   \<and> objects shrunk_cluster key_y = Some ''y-live''
   \<and> fst (handleResourcesDeletion r0 (annotated ''blue'' ''shrunk'' ''shrunk'') shrunk
             shrunk_cluster) = None
   \<and> objects (snd (snd (handleResourcesDeletion r0 (annotated ''blue'' ''shrunk'' ''shrunk'')
         shrunk shrunk_cluster))) key_y = Some ''y-live''
   \<and> nc_Status_Resources (fst (snd (handleResourcesDeletion r0
         (annotated ''blue'' ''shrunk'' ''shrunk'') shrunk shrunk_cluster))) = [entry_y, entry_z]"
  by (simp add: eval_defs upt_rec)

text \<open>
  C8. Two passes for the same namespace and class, nothing else touching the store. Both
  succeed; the second deletes the object \<open>y\<close> that the first had left, and updates the
  ledger.
\<close>

theorem Reconcile_second_pass_deletes:
  "fst (Reconcile r0 blue_request shrunk_cluster) = None
   \<and> fst (Reconcile r0 blue_request shrunk_once) = None
   \<and> objects shrunk_once key_y = Some ''y-live''
   \<and> objects shrunk_twice key_y = None
   \<and> map nc_Status_Resources (classes shrunk_once) = [[entry_y, entry_z]]
   \<and> map nc_Status_Resources (classes shrunk_twice) = [[entry_z]]
   \<and> DeleteCall key_y \<in> set (drop (length (calls shrunk_once)) (calls shrunk_twice))"
  by (simp add: shrunk_twice_def shrunk_once_def eval_defs upt_rec)

end
